theory Spec2Isabelle
  imports Main
begin

section \<open>Insertion-ordered containers\<close>

text \<open>
  The caches of the gateway are a JavaScript \<^verbatim>\<open>Map\<close> and a \<^verbatim>\<open>Set\<close>. Both iterate in
  insertion order, and the eviction loops depend on that order, so a \<^verbatim>\<open>Map\<close> is an
  association list with one pair per key, oldest first, and a \<^verbatim>\<open>Set\<close> is a list without
  repetition, oldest first.
\<close>

type_synonym ('k, 'v) js_map = "('k \<times> 'v) list"

definition Map_has :: "('k, 'v) js_map \<Rightarrow> 'k \<Rightarrow> bool" where
  "Map_has m k = (map_of m k \<noteq> None)"

fun Map_set :: "'k \<Rightarrow> 'v \<Rightarrow> ('k, 'v) js_map \<Rightarrow> ('k, 'v) js_map" where
  "Map_set k v [] = [(k, v)]"
| "Map_set k v (p # m) = (if fst p = k then (k, v) # m else p # Map_set k v m)"

definition Map_delete :: "'k \<Rightarrow> ('k, 'v) js_map \<Rightarrow> ('k, 'v) js_map" where
  "Map_delete k m = filter (\<lambda>p. fst p \<noteq> k) m"

section \<open>Group history (history.ts)\<close>

record HistoryEntry =
  sender :: string
  body :: string
  timestamp :: int
  entry_messageId :: string

type_synonym groupHistories = "(string, HistoryEntry list) js_map"

text \<open>
  The eviction loop of \<^verbatim>\<open>record\<close>: \<^verbatim>\<open>keysToDelete\<close> rounds, each taking the next key of the
  iterator and deleting it when it is truthy. The iterator is live, but the loop deletes
  only keys it has already passed, so it yields the keys the map held when the loop began,
  in order; an exhausted iterator yields \<^verbatim>\<open>undefined\<close>, which is falsy, as is the empty
  string.
\<close>

fun evict_groups :: "nat \<Rightarrow> string list \<Rightarrow> groupHistories \<Rightarrow> groupHistories" where
  "evict_groups 0 it m = m"
| "evict_groups (Suc n) [] m = evict_groups n [] m"
| "evict_groups (Suc n) (k # it) m = evict_groups n it (if k \<noteq> [] then Map_delete k m else m)"

text \<open>\<^verbatim>\<open>while (history.length > historyLimit) history.shift()\<close>\<close>

function trim_history :: "nat \<Rightarrow> 'a list \<Rightarrow> 'a list" where
  "trim_history historyLimit h =
     (if length h > historyLimit then trim_history historyLimit (tl h) else h)"
  by pat_completeness auto
termination
  by (relation "measure (\<lambda>(l, h). length h)") auto

declare trim_history.simps [simp del]

text \<open>
  \<^verbatim>\<open>record(chatId, entry)\<close>, with the options \<^verbatim>\<open>historyLimit\<close> and \<^verbatim>\<open>maxGroups\<close> (counts, so
  natural numbers) and the map passed in and returned. The array \<^verbatim>\<open>history\<close> is the object
  stored in the map, so \<^verbatim>\<open>push\<close> and \<^verbatim>\<open>shift\<close> change the stored value in place.
\<close>

definition history_record ::
  "nat \<Rightarrow> nat \<Rightarrow> groupHistories \<Rightarrow> string \<Rightarrow> HistoryEntry \<Rightarrow> groupHistories" where
  "history_record historyLimit maxGroups groupHistories chatId entry =
     (let m1 = (if length groupHistories > maxGroups
                then evict_groups (length groupHistories - maxGroups)
                       (map fst groupHistories) groupHistories
                else groupHistories);
          m2 = (case map_of m1 chatId of None \<Rightarrow> Map_set chatId [] m1 | Some h \<Rightarrow> m1);
          history = (case map_of m1 chatId of None \<Rightarrow> [] | Some h \<Rightarrow> h);
          history' = trim_history historyLimit (history @ [entry]);
          m3 = Map_set chatId history' m2
      in if Map_has m3 chatId then Map_set chatId history' (Map_delete chatId m3) else m3)"

text \<open>A sequence of \<^verbatim>\<open>record\<close> calls, each a conversation and an entry.\<close>

definition history_records ::
  "nat \<Rightarrow> nat \<Rightarrow> groupHistories \<Rightarrow> (string \<times> HistoryEntry) list \<Rightarrow> groupHistories" where
  "history_records historyLimit maxGroups groupHistories calls =
     foldl (\<lambda>m call. history_record historyLimit maxGroups m (fst call) (snd call))
       groupHistories calls"

text \<open>
  What holds of the map between calls when no conversation id is the empty string: one pair
  per key, and no empty key.
\<close>

definition tracked_ok :: "groupHistories \<Rightarrow> bool" where
  "tracked_ok groupHistories =
     (distinct (map fst groupHistories) \<and> [] \<notin> set (map fst groupHistories))"

definition history_get :: "groupHistories \<Rightarrow> string \<Rightarrow> HistoryEntry list" where
  "history_get groupHistories chatId =
     (case map_of groupHistories chatId of None \<Rightarrow> [] | Some h \<Rightarrow> h)"

definition history_clear :: "groupHistories \<Rightarrow> string \<Rightarrow> groupHistories" where
  "history_clear groupHistories chatId = Map_set chatId [] groupHistories"

definition groupCount :: "groupHistories \<Rightarrow> nat" where
  "groupCount groupHistories = length groupHistories"

definition clearAll :: "groupHistories \<Rightarrow> groupHistories" where
  "clearAll groupHistories = []"

definition DEFAULT_GROUP_HISTORY_LIMIT :: nat where
  "DEFAULT_GROUP_HISTORY_LIMIT = 10"

definition DEFAULT_MAX_GROUPS :: nat where
  "DEFAULT_MAX_GROUPS = 100"

section \<open>Message deduplication (dedupe.ts)\<close>

type_synonym processedMessages = "string list"

definition Set_add :: "'a \<Rightarrow> 'a list \<Rightarrow> 'a list" where
  "Set_add x s = (if x \<in> set s then s else s @ [x])"

definition Set_delete :: "'a \<Rightarrow> 'a list \<Rightarrow> 'a list" where
  "Set_delete x s = filter (\<lambda>y. y \<noteq> x) s"

text \<open>
  The cleanup loop of \<^verbatim>\<open>markProcessed\<close>: \<^verbatim>\<open>toDelete\<close> rounds over the iterator of the set's
  values; a value is deleted only when it is truthy, so neither \<^verbatim>\<open>undefined\<close> (iterator
  exhausted) nor the empty string is deleted.
\<close>

fun evict_processed :: "nat \<Rightarrow> string list \<Rightarrow> processedMessages \<Rightarrow> processedMessages" where
  "evict_processed 0 it s = s"
| "evict_processed (Suc n) [] s = evict_processed n [] s"
| "evict_processed (Suc n) (v # it) s =
     evict_processed n it (if v \<noteq> [] then Set_delete v s else s)"

definition isProcessed :: "processedMessages \<Rightarrow> string \<Rightarrow> bool" where
  "isProcessed processedMessages messageId = (messageId \<in> set processedMessages)"

text \<open>
  \<^verbatim>\<open>markProcessed(messageId)\<close> with the options \<^verbatim>\<open>maxSize\<close> and \<^verbatim>\<open>cleanupThreshold\<close>. When
  \<^verbatim>\<open>size - cleanupThreshold\<close> is negative the source's loop does not run; the truncated
  subtraction of the naturals gives zero rounds there as well.
\<close>

definition markProcessed :: "nat \<Rightarrow> nat \<Rightarrow> processedMessages \<Rightarrow> string \<Rightarrow> processedMessages" where
  "markProcessed maxSize cleanupThreshold processedMessages messageId =
     Set_add messageId
       (if length processedMessages \<ge> maxSize
        then evict_processed (length processedMessages - cleanupThreshold)
               processedMessages processedMessages
        else processedMessages)"

definition dedupe_size :: "processedMessages \<Rightarrow> nat" where
  "dedupe_size processedMessages = length processedMessages"

definition dedupe_clear :: "processedMessages \<Rightarrow> processedMessages" where
  "dedupe_clear processedMessages = []"

definition DEFAULT_DEDUPE_MAX_SIZE :: nat where
  "DEFAULT_DEDUPE_MAX_SIZE = 1000"

definition DEFAULT_DEDUPE_CLEANUP_THRESHOLD :: nat where
  "DEFAULT_DEDUPE_CLEANUP_THRESHOLD = 800"

section \<open>Strings and regular expressions of the runtime\<close>

text \<open>
  A string is a list of characters. Isabelle's characters are bytes, JavaScript's are
  UTF-16 code units: lengths and case mapping agree on ASCII text, which is what the
  functions below are evaluated on. \<^verbatim>\<open>toLowerCase\<close> maps the letters \<^verbatim>\<open>A\<close> to \<^verbatim>\<open>Z\<close> and
  \<^verbatim>\<open>trim\<close> strips tab, line feed, vertical tab, form feed, carriage return and blank;
  JavaScript also lower-cases letters outside ASCII and strips white space outside ASCII
  (U+00A0, U+FEFF, U+3000, ...), so on such text the two differ from the runtime.
\<close>

definition truthy :: "string option \<Rightarrow> bool" where
  "truthy v = (case v of None \<Rightarrow> False | Some s \<Rightarrow> s \<noteq> [])"

fun starts_with :: "string \<Rightarrow> string \<Rightarrow> bool" where
  "starts_with s [] = True"
| "starts_with [] (c # p) = False"
| "starts_with (d # s) (c # p) = (d = c \<and> starts_with s p)"

fun str_includes :: "string \<Rightarrow> string \<Rightarrow> bool" where
  "str_includes [] p = (p = [])"
| "str_includes (c # s) p = (starts_with (c # s) p \<or> str_includes s p)"

definition lower_char :: "char \<Rightarrow> char" where
  "lower_char c =
     (let n = (of_char c :: nat) in if 65 \<le> n \<and> n \<le> 90 then char_of (n + 32) else c)"

definition toLowerCase :: "string \<Rightarrow> string" where
  "toLowerCase s = map lower_char s"

definition is_space :: "char \<Rightarrow> bool" where
  "is_space c = ((of_char c :: nat) \<in> {9, 10, 11, 12, 13, 32})"

definition trim :: "string \<Rightarrow> string" where
  "trim s = rev (dropWhile is_space (rev (dropWhile is_space s)))"

fun join :: "string \<Rightarrow> string list \<Rightarrow> string" where
  "join sep [] = []"
| "join sep [x] = x"
| "join sep (x # y # xs) = x @ sep @ join sep (y # xs)"

text \<open>
  The regular expressions of \<^verbatim>\<open>shouldUseCardRendering\<close> use no anchor, group reference or
  look-around, so \<^verbatim>\<open>re.test(s)\<close> asks whether some substring of \<^verbatim>\<open>s\<close> is in a regular
  language (a lazy quantifier changes which match is found, not whether one exists). The
  language is decided by derivatives.
\<close>

datatype rexp =
    Zero
  | Eps
  | Atom "char \<Rightarrow> bool"
  | Alt rexp rexp
  | Seq rexp rexp
  | Star rexp

fun nullable :: "rexp \<Rightarrow> bool" where
  "nullable Zero = False"
| "nullable Eps = True"
| "nullable (Atom p) = False"
| "nullable (Alt r s) = (nullable r \<or> nullable s)"
| "nullable (Seq r s) = (nullable r \<and> nullable s)"
| "nullable (Star r) = True"

fun deriv :: "char \<Rightarrow> rexp \<Rightarrow> rexp" where
  "deriv c Zero = Zero"
| "deriv c Eps = Zero"
| "deriv c (Atom p) = (if p c then Eps else Zero)"
| "deriv c (Alt r s) = Alt (deriv c r) (deriv c s)"
| "deriv c (Seq r s) =
     (if nullable r then Alt (Seq (deriv c r) s) (deriv c s) else Seq (deriv c r) s)"
| "deriv c (Star r) = Seq (deriv c r) (Star r)"

fun matches :: "rexp \<Rightarrow> string \<Rightarrow> bool" where
  "matches r [] = nullable r"
| "matches r (c # s) = matches (deriv c r) s"

definition Plus :: "rexp \<Rightarrow> rexp" where
  "Plus r = Seq r (Star r)"

definition Lit :: "char \<Rightarrow> rexp" where
  "Lit c = Atom (\<lambda>d. d = c)"

definition OneOf :: "string \<Rightarrow> rexp" where
  "OneOf cs = Atom (\<lambda>d. d \<in> set cs)"

definition AnyChar :: rexp where
  "AnyChar = Atom (\<lambda>d. True)"

text \<open>\<^verbatim>\<open>.\<close> matches any character but a line terminator.\<close>

definition Dot :: rexp where
  "Dot = Atom (\<lambda>d. d \<noteq> CHR 0x0A \<and> d \<noteq> CHR 0x0D)"

fun Seqs :: "rexp list \<Rightarrow> rexp" where
  "Seqs [] = Eps"
| "Seqs [r] = r"
| "Seqs (r # rs) = Seq r (Seqs rs)"

definition regexp_test :: "rexp \<Rightarrow> string \<Rightarrow> bool" where
  "regexp_test r s = matches (Seq (Star AnyChar) (Seq r (Star AnyChar))) s"

section \<open>Render mode (api.ts, dispatch.ts)\<close>

datatype FeishuRenderMode = Auto | Raw | Card

text \<open>\<^verbatim>\<open>/```[\s\S]*?```/\<close>\<close>

definition code_block_re :: rexp where
  "code_block_re =
     Seqs [Lit CHR 0x60, Lit CHR 0x60, Lit CHR 0x60, Star AnyChar,
           Lit CHR 0x60, Lit CHR 0x60, Lit CHR 0x60]"

text \<open>\<^verbatim>\<open>/\|.+\|[\r\n]+\|[-:| ]+\|/\<close>\<close>

definition table_re :: rexp where
  "table_re =
     Seqs [Lit CHR ''|'', Plus Dot, Lit CHR ''|'', Plus (OneOf [CHR 0x0D, CHR 0x0A]),
           Lit CHR ''|'', Plus (OneOf ''-:| ''), Lit CHR ''|'']"

text \<open>\<^verbatim>\<open>/\[.+\]\(.+\)/\<close>\<close>

definition link_re :: rexp where
  "link_re =
     Seqs [Lit CHR ''['', Plus Dot, Lit CHR '']'', Lit CHR ''('', Plus Dot, Lit CHR '')'']"

text \<open>\<^verbatim>\<open>(text.match(/\n\n/g) || []).length\<close>: the matches do not overlap.\<close>

fun count_blank_lines :: "string \<Rightarrow> nat" where
  "count_blank_lines (a # b # s) =
     (if a = CHR 0x0A \<and> b = CHR 0x0A then Suc (count_blank_lines s)
      else count_blank_lines (b # s))"
| "count_blank_lines s = 0"

definition shouldUseCardRendering :: "string \<Rightarrow> bool" where
  "shouldUseCardRendering text' =
     (if regexp_test code_block_re text' then True
      else if regexp_test table_re text' then True
      else if regexp_test link_re text' then True
      else if length text' > 500 then True
      else if count_blank_lines text' \<ge> 3 then True
      else False)"

text \<open>
  \<^verbatim>\<open>markdownTableToAscii\<close>: first every \<^verbatim>\<open>|\<close> becomes \<^verbatim>\<open>" | "\<close>; then every leftmost, longest
  match of \<^verbatim>\<open>/[-:]+\|[-:| ]+/g\<close> has its \<^verbatim>\<open>:\<close> and \<^verbatim>\<open>|\<close> replaced by \<^verbatim>\<open>-\<close>. A match at a
  position is the longest run of \<^verbatim>\<open>-\<close> and \<^verbatim>\<open>:\<close> there (not empty), a \<^verbatim>\<open>|\<close>, and the longest
  run of \<^verbatim>\<open>-\<close>, \<^verbatim>\<open>:\<close>, \<^verbatim>\<open>|\<close> and blanks after it (not empty); a shorter first run is followed
  by \<^verbatim>\<open>-\<close> or \<^verbatim>\<open>:\<close>, never by \<^verbatim>\<open>|\<close>, so backtracking finds nothing more.
\<close>

definition pad_pipes :: "string \<Rightarrow> string" where
  "pad_pipes s = concat (map (\<lambda>c. if c = CHR ''|'' then '' | '' else [c]) s)"

definition dash_colon :: "char \<Rightarrow> bool" where
  "dash_colon c = (c = CHR ''-'' \<or> c = CHR '':'')"

definition sep_char :: "char \<Rightarrow> bool" where
  "sep_char c = (c = CHR ''-'' \<or> c = CHR '':'' \<or> c = CHR ''|'' \<or> c = CHR '' '')"

definition separator_match :: "string \<Rightarrow> (string \<times> string) option" where
  "separator_match s =
     (let run1 = takeWhile dash_colon s; rest1 = dropWhile dash_colon s
      in case rest1 of
           [] \<Rightarrow> None
         | c # rest2 \<Rightarrow>
             if run1 \<noteq> [] \<and> c = CHR ''|'' \<and> takeWhile sep_char rest2 \<noteq> []
             then Some (run1 @ [c] @ takeWhile sep_char rest2, dropWhile sep_char rest2)
             else None)"

lemma separator_match_shorter:
  assumes "separator_match s = Some (m, rest)"
  shows "length rest < length s"
proof -
  obtain c rest2 where split: "dropWhile dash_colon s = c # rest2"
    and rest: "rest = dropWhile sep_char rest2"
    using assms by (auto simp: separator_match_def Let_def split: list.splits if_splits)
  have "length rest \<le> length rest2"
    unfolding rest by (rule length_dropWhile_le)
  moreover have "length (c # rest2) \<le> length s"
    unfolding split [symmetric] by (rule length_dropWhile_le)
  ultimately show ?thesis
    by simp
qed

function dash_separators :: "string \<Rightarrow> string" where
  "dash_separators [] = []"
| "dash_separators (c # s) =
     (case separator_match (c # s) of
        None \<Rightarrow> c # dash_separators s
      | Some (m, rest) \<Rightarrow>
          map (\<lambda>d. if d = CHR '':'' \<or> d = CHR ''|'' then CHR ''-'' else d) m
          @ dash_separators rest)"
  by pat_completeness auto
termination
  by (relation "measure length") (auto dest: separator_match_shorter)

definition markdownTableToAscii :: "string \<Rightarrow> string" where
  "markdownTableToAscii markdown = dash_separators (pad_pipes markdown)"

text \<open>
  What reaches the platform: a card built from the text (\<^verbatim>\<open>createMarkdownCard(text)\<close>) or a
  plain text message.
\<close>

datatype delivery = SendCard string | SendText string

text \<open>
  \<^verbatim>\<open>sendSmart\<close>: \<^verbatim>\<open>options.renderMode ?? account.renderMode ?? "auto"\<close>, where the resolved
  account always has a render mode.
\<close>

definition sendSmart :: "FeishuRenderMode \<Rightarrow> string \<Rightarrow> FeishuRenderMode option \<Rightarrow> delivery" where
  "sendSmart account_renderMode text' options_renderMode =
     (let renderMode = (case options_renderMode of Some r \<Rightarrow> r | None \<Rightarrow> account_renderMode);
          useCard = (case renderMode of
                       Card \<Rightarrow> True
                     | Raw \<Rightarrow> False
                     | Auto \<Rightarrow> shouldUseCardRendering text');
          processedText = (case renderMode of
                             Raw \<Rightarrow> markdownTableToAscii text'
                           | _ \<Rightarrow> text')
      in if useCard then SendCard text' else SendText processedText)"

definition replyMessage :: "FeishuRenderMode \<Rightarrow> string \<Rightarrow> FeishuRenderMode option \<Rightarrow> delivery" where
  "replyMessage account_renderMode text' options_renderMode =
     (let renderMode = (case options_renderMode of Some r \<Rightarrow> r | None \<Rightarrow> account_renderMode);
          useCard = (renderMode = Card \<or> (renderMode = Auto \<and> shouldUseCardRendering text'))
      in if useCard then SendCard text' else SendText text')"

text \<open>
  \<^verbatim>\<open>createDefaultReplySender(account, chatId, isGroup)\<close> applied to
  \<^verbatim>\<open>{text, replyToId, renderMode}\<close>.
\<close>

definition createDefaultReplySender ::
  "FeishuRenderMode \<Rightarrow> bool \<Rightarrow> string \<Rightarrow> string option \<Rightarrow> FeishuRenderMode option \<Rightarrow> delivery" where
  "createDefaultReplySender account_renderMode isGroup text' replyToId renderMode =
     (if truthy replyToId \<and> isGroup then replyMessage account_renderMode text' renderMode
      else sendSmart account_renderMode text' renderMode)"

text \<open>
  The \<^verbatim>\<open>deliver\<close> callback of \<^verbatim>\<open>dispatchFeishuMessage\<close> for a payload without media, wired
  to the default reply sender as \<^verbatim>\<open>handleInboundMessage\<close> does. \<^verbatim>\<open>None\<close> is the branch
  that sends nothing (empty text).
\<close>

definition deliver :: "FeishuRenderMode \<Rightarrow> bool \<Rightarrow> string \<Rightarrow> string \<Rightarrow> delivery option" where
  "deliver account_renderMode isGroup message_messageId text' =
     (let replyToId = (if isGroup then Some message_messageId else None)
      in if text' \<noteq> []
         then (let renderMode = (if shouldUseCardRendering text' then Card
                                 else account_renderMode)
               in Some (createDefaultReplySender account_renderMode isGroup text' replyToId
                          (Some renderMode)))
         else None)"

section \<open>Inbound messages (webhook.ts)\<close>

datatype chatType = Direct | Group

record mention =
  mention_key :: string
  mention_id :: string
  mention_name :: string

text \<open>
  \<^verbatim>\<open>FeishuInboundMessage\<close>. Optional fields are options; \<^verbatim>\<open>createTime\<close> is a number, with
  \<^verbatim>\<open>None\<close> for \<^verbatim>\<open>NaN\<close>.
\<close>

record FeishuInboundMessage =
  messageId :: string
  chatId :: string
  chatType :: chatType
  senderId :: string
  senderOpenId :: "string option"
  senderUserId :: "string option"
  senderUnionId :: "string option"
  messageType :: string
  content :: string
  text' :: "string option"
  displayText :: "string option"
  mentions :: "mention list option"
  rootId :: "string option"
  parentId :: "string option"
  createTime :: "int option"
  tenantKey :: string
  replyToBody :: "string option"
  replyToSenderId :: "string option"
  replyToId :: "string option"
  imageKey :: "string option"
  fileKey :: "string option"
  fileName :: "string option"
  mediaPath :: "string option"
  mediaType :: "string option"

text \<open>The result of \<^verbatim>\<open>parseWebhookEvent\<close>, tagged by its \<^verbatim>\<open>type\<close>.\<close>

datatype FeishuWebhookResult =
    Challenge "string option"
  | Message FeishuInboundMessage
  | Bot_added "string option"
  | Bot_removed "string option"
  | Unknown
  | Error string

text \<open>
  A thrown exception is the text \<^verbatim>\<open>error.message\<close> (or \<^verbatim>\<open>String(error)\<close>) gives for it; a
  computation that may throw returns a sum, \<^verbatim>\<open>Inl\<close> the exception.
\<close>

type_synonym js_error = string

text \<open>
  The value \<^verbatim>\<open>JSON.parse\<close> yields. A number is held as the text \<^verbatim>\<open>String\<close> renders it
  with, so zero is \<^verbatim>\<open>''0''\<close>.
\<close>

datatype json =
    JNull
  | JBool bool
  | JNum string
  | JStr string
  | JArr "json list"
  | JObj "(string \<times> json) list"

text \<open>
  The built-ins of the runtime that the normalizer calls and that are not code of the
  gateway: \<^verbatim>\<open>JSON.parse\<close> (\<^verbatim>\<open>None\<close> when it throws a \<^verbatim>\<open>SyntaxError\<close>),
  \<^verbatim>\<open>new RegExp(source, "g")\<close> (\<^verbatim>\<open>Inl\<close> when the source is not a regular expression;
  otherwise the function that \<^verbatim>\<open>subject.replace(re, replacement)\<close> computes, from the
  subject and the replacement) and \<^verbatim>\<open>parseInt(s, 10)\<close>.
\<close>

record js_runtime =
  JSON_parse :: "string \<Rightarrow> json option"
  RegExp_g :: "string \<Rightarrow> js_error + (string \<Rightarrow> string \<Rightarrow> string)"
  parseInt10 :: "string \<Rightarrow> int option"

text \<open>
  Reading a property: of \<^verbatim>\<open>null\<close> it throws a \<^verbatim>\<open>TypeError\<close>, of an object it gives the
  member or \<^verbatim>\<open>undefined\<close>, and a boolean, number, string or array has none of the
  properties read here. \<^verbatim>\<open>jget\<close> is the read behind \<^verbatim>\<open>?.\<close> and on values known to be
  truthy, where nothing is thrown.
\<close>

definition jprop :: "json \<Rightarrow> string \<Rightarrow> js_error + json option" where
  "jprop v k =
     (case v of
        JNull \<Rightarrow>
          Inl (''Cannot read properties of null (reading '' @ [CHR 0x27] @ k @ [CHR 0x27] @ '')'')
      | JObj kvs \<Rightarrow> Inr (map_of kvs k)
      | _ \<Rightarrow> Inr None)"

definition jget :: "json option \<Rightarrow> string \<Rightarrow> json option" where
  "jget v k = (case v of Some (JObj kvs) \<Rightarrow> map_of kvs k | _ \<Rightarrow> None)"

definition truthy_json :: "json option \<Rightarrow> bool" where
  "truthy_json v =
     (case v of
        None \<Rightarrow> False
      | Some JNull \<Rightarrow> False
      | Some (JBool b) \<Rightarrow> b
      | Some (JNum n) \<Rightarrow> n \<noteq> ''0''
      | Some (JStr s) \<Rightarrow> s \<noteq> []
      | Some (JArr xs) \<Rightarrow> True
      | Some (JObj kvs) \<Rightarrow> True)"

text \<open>\<^verbatim>\<open>a || b\<close>\<close>

definition js_or :: "json option \<Rightarrow> json option \<Rightarrow> json option" where
  "js_or a b = (if truthy_json a then a else b)"

text \<open>
  A member that the source types as a string (\<^verbatim>\<open>text\<close>, \<^verbatim>\<open>image_key\<close>, \<^verbatim>\<open>title\<close>, ...) is
  read as a string. Another JSON value in its place is outside what the source's types
  allow; the model reads it as absent, where the code would carry the value on unchanged
  (a number in \<^verbatim>\<open>text\<close> stays a number). Nothing below is stated about such content.
\<close>

definition as_string :: "json option \<Rightarrow> string option" where
  "as_string v = (case v of Some (JStr s) \<Rightarrow> Some s | _ \<Rightarrow> None)"

text \<open>A value inside a template literal.\<close>

definition template :: "string option \<Rightarrow> string" where
  "template v = (case v of None \<Rightarrow> ''undefined'' | Some s \<Rightarrow> s)"

text \<open>
  A JSON value inside a template literal, as \<^verbatim>\<open>String\<close> renders it: an array is its elements
  joined by commas, with nothing for a \<^verbatim>\<open>null\<close> element.
\<close>

fun js_String :: "json \<Rightarrow> string" where
  "js_String JNull = ''null''"
| "js_String (JBool b) = (if b then ''true'' else ''false'')"
| "js_String (JNum n) = n"
| "js_String (JStr s) = s"
| "js_String (JArr xs) = join '','' (map (\<lambda>x. if x = JNull then [] else js_String x) xs)"
| "js_String (JObj kvs) = ''[object Object]''"

definition template_json :: "json option \<Rightarrow> string" where
  "template_json v = (case v of None \<Rightarrow> ''undefined'' | Some j \<Rightarrow> js_String j)"

definition extractFromElements :: "json list \<Rightarrow> string list" where
  "extractFromElements elements =
     concat (map (\<lambda>element.
       (let tag = as_string (jget (Some element) ''tag'');
            t = as_string (jget (Some element) ''text'');
            user_name = as_string (jget (Some element) ''user_name'')
        in if (tag = Some ''text'' \<or> tag = Some ''a'') \<and> truthy t then [template t]
           else if tag = Some ''at'' \<and> truthy user_name then [''@'' @ template user_name]
           else [])) elements)"

definition extractTextFromPost :: "json \<Rightarrow> string" where
  "extractTextFromPost content' =
     (case content' of
        JObj kvs \<Rightarrow>
          (let obj = Some (JObj kvs);
               langPost = js_or (jget obj ''zh_cn'') (jget obj ''en_us'');
               p1 = (if truthy_json (jget langPost ''content'')
                     then (jget langPost ''content'', jget langPost ''title'')
                     else (None, None));
               p2 = (if \<not> truthy_json (fst p1) \<and>
                        (case jget obj ''content'' of Some (JArr ls) \<Rightarrow> True | _ \<Rightarrow> False)
                     then (jget obj ''content'', jget obj ''title'')
                     else p1);
               nestedLang = js_or (jget (jget obj ''post'') ''zh_cn'')
                                  (jget (jget obj ''post'') ''en_us'');
               p3 = (if \<not> truthy_json (fst p2) \<and> truthy_json (jget obj ''post'') \<and>
                        truthy_json (jget nestedLang ''content'')
                     then (jget nestedLang ''content'', jget nestedLang ''title'')
                     else p2);
               title = as_string (snd p3)
           in join '' ''
                ((if truthy title then [template title] else [])
                 @ (case fst p3 of
                      Some (JArr ls) \<Rightarrow>
                        concat (map (\<lambda>line. case line of
                                       JArr elements \<Rightarrow> extractFromElements elements
                                     | _ \<Rightarrow> []) ls)
                    | _ \<Rightarrow> [])))
      | _ \<Rightarrow> [])"

text \<open>
  \<^verbatim>\<open>extractTextFromCard\<close>; reading \<^verbatim>\<open>element.tag\<close> of a \<^verbatim>\<open>null\<close> element throws.
\<close>

fun card_elements :: "json list \<Rightarrow> js_error + string list" where
  "card_elements [] = Inr []"
| "card_elements (element # elements) =
     (case jprop element ''tag'' of
        Inl e \<Rightarrow> Inl e
      | Inr tag \<Rightarrow>
          (let c = as_string (jget (Some element) ''content'');
               t = as_string (jget (jget (Some element) ''text'') ''content'');
               here = (if as_string tag = Some ''markdown'' \<and> truthy c then [template c]
                       else if as_string tag = Some ''div'' \<and> truthy t then [template t]
                       else [])
           in case card_elements elements of
                Inl e \<Rightarrow> Inl e
              | Inr others \<Rightarrow> Inr (here @ others)))"

definition extractTextFromCard :: "json \<Rightarrow> js_error + string" where
  "extractTextFromCard content' =
     (case content' of
        JObj kvs \<Rightarrow>
          (let card = Some (JObj kvs);
               title = as_string (jget (jget (jget card ''header'') ''title'') ''content'');
               head = (if truthy title then [template title] else [])
           in case jget card ''elements'' of
                Some (JArr elements) \<Rightarrow>
                  (case card_elements elements of
                     Inl e \<Rightarrow> Inl e
                   | Inr others \<Rightarrow> Inr (join [CHR 0x0A] (head @ others)))
              | _ \<Rightarrow> Inr (join [CHR 0x0A] head))
      | _ \<Rightarrow> Inr [])"

text \<open>The event as \<^verbatim>\<open>FeishuMessageReceiveEvent\<close> types it.\<close>

record user_ids =
  union_id :: "string option"
  user_id :: "string option"
  open_id :: "string option"

record event_sender =
  sender_id :: user_ids
  sender_type :: string
  tenant_key :: string

record event_mention =
  raw_key :: string
  raw_id :: user_ids
  raw_name :: string

record event_message =
  message_id :: string
  root_id :: "string option"
  parent_id :: "string option"
  create_time :: string
  chat_id :: string
  chat_type :: string
  message_type :: string
  raw_content :: string
  raw_mentions :: "event_mention list option"

record message_receive =
  event_sender :: event_sender
  event_message :: event_message

text \<open>\<^verbatim>\<open>ids.open_id || ids.user_id || ids.union_id || ""\<close>\<close>

definition first_id :: "user_ids \<Rightarrow> string" where
  "first_id ids =
     (if truthy (open_id ids) then the (open_id ids)
      else if truthy (user_id ids) then the (user_id ids)
      else if truthy (union_id ids) then the (union_id ids)
      else [])"

text \<open>
  What the \<^verbatim>\<open>try\<close> block of \<^verbatim>\<open>handleMessageReceive\<close> assigns: \<^verbatim>\<open>text\<close>, \<^verbatim>\<open>imageKey\<close>,
  \<^verbatim>\<open>fileKey\<close>, \<^verbatim>\<open>fileName\<close>.
\<close>

record extracted =
  ex_text :: "string option"
  ex_imageKey :: "string option"
  ex_fileKey :: "string option"
  ex_fileName :: "string option"

definition only_text :: "string option \<Rightarrow> extracted" where
  "only_text t = \<lparr>ex_text = t, ex_imageKey = None, ex_fileKey = None, ex_fileName = None\<rparr>"

text \<open>
  The \<^verbatim>\<open>switch\<close> on the message type, on the parsed content. Every branch reads its first
  property of \<^verbatim>\<open>contentObj\<close> before it assigns anything, so a branch that throws has
  assigned nothing.
\<close>

definition switch_message_type :: "string \<Rightarrow> string \<Rightarrow> json \<Rightarrow> js_error + extracted" where
  "switch_message_type mtype raw contentObj =
     (if mtype = ''text'' then
        (case jprop contentObj ''text'' of
           Inl e \<Rightarrow> Inl e
         | Inr t \<Rightarrow> Inr (only_text (as_string t)))
      else if mtype = ''post'' then Inr (only_text (Some (extractTextFromPost contentObj)))
      else if mtype = ''image'' then
        (case jprop contentObj ''image_key'' of
           Inl e \<Rightarrow> Inl e
         | Inr k \<Rightarrow> Inr ((only_text (Some ''<media:image>''))\<lparr>ex_imageKey := as_string k\<rparr>))
      else if mtype = ''file'' then
        (case jprop contentObj ''file_key'' of
           Inl e \<Rightarrow> Inl e
         | Inr k \<Rightarrow>
             (let fname = as_string (jget (Some contentObj) ''file_name'')
              in Inr \<lparr>ex_text = Some (''<media:file>''
                                        @ (case fname of None \<Rightarrow> ''file'' | Some n \<Rightarrow> n)),
                      ex_imageKey = None, ex_fileKey = as_string k, ex_fileName = fname\<rparr>))
      else if mtype = ''audio'' then
        (case jprop contentObj ''file_key'' of
           Inl e \<Rightarrow> Inl e
         | Inr k \<Rightarrow> Inr ((only_text (Some ''<media:audio>''))\<lparr>ex_fileKey := as_string k\<rparr>))
      else if mtype = ''media'' then
        (case jprop contentObj ''file_key'' of
           Inl e \<Rightarrow> Inl e
         | Inr k \<Rightarrow>
             Inr \<lparr>ex_text = Some ''<media:video>'',
                  ex_imageKey = as_string (jget (Some contentObj) ''image_key''),
                  ex_fileKey = as_string k, ex_fileName = None\<rparr>)
      else if mtype = ''sticker'' then
        (case jprop contentObj ''file_key'' of
           Inl e \<Rightarrow> Inl e
         | Inr k \<Rightarrow> Inr ((only_text (Some ''<media:sticker>''))\<lparr>ex_fileKey := as_string k\<rparr>))
      else if mtype = ''interactive'' then
        (case extractTextFromCard contentObj of
           Inl e \<Rightarrow> Inl e
         | Inr t \<Rightarrow> Inr (only_text (Some t)))
      else if mtype = ''share_chat'' then
        (case jprop contentObj ''chat_id'' of
           Inl e \<Rightarrow> Inl e
         | Inr c \<Rightarrow> Inr (only_text (Some (''[Shared chat: '' @ template_json c @ '']''))))
      else if mtype = ''share_user'' then
        (case jprop contentObj ''user_id'' of
           Inl e \<Rightarrow> Inl e
         | Inr u \<Rightarrow> Inr (only_text (Some (''[Shared user: '' @ template_json u @ '']''))))
      else Inr (only_text (Some raw)))"

text \<open>
  The \<^verbatim>\<open>try\<close> and its \<^verbatim>\<open>catch\<close>: when \<^verbatim>\<open>JSON.parse\<close> or a branch throws, the text is the
  raw content.
\<close>

definition parse_content :: "js_runtime \<Rightarrow> event_message \<Rightarrow> extracted" where
  "parse_content rt message =
     (case JSON_parse rt (raw_content message) of
        None \<Rightarrow> only_text (Some (raw_content message))
      | Some contentObj \<Rightarrow>
          (case switch_message_type (message_type message) (raw_content message) contentObj of
             Inl e \<Rightarrow> only_text (Some (raw_content message))
           | Inr ex \<Rightarrow> ex))"

text \<open>
  The loop that builds \<^verbatim>\<open>displayText\<close>: for each mention, a \<^verbatim>\<open>RegExp\<close> is made of its key
  (which may throw) and every match is replaced by \<^verbatim>\<open>@name\<close>.
\<close>

fun replace_mentions :: "js_runtime \<Rightarrow> mention list \<Rightarrow> string \<Rightarrow> js_error + string" where
  "replace_mentions rt [] s = Inr s"
| "replace_mentions rt (m # ms) s =
     (case RegExp_g rt (mention_key m) of
        Inl e \<Rightarrow> Inl e
      | Inr replace \<Rightarrow> replace_mentions rt ms (replace s (''@'' @ mention_name m)))"

definition map_mention :: "event_mention \<Rightarrow> mention" where
  "map_mention m =
     \<lparr>mention_key = raw_key m, mention_id = first_id (raw_id m), mention_name = raw_name m\<rparr>"

definition handleMessageReceive :: "js_runtime \<Rightarrow> message_receive \<Rightarrow> js_error + FeishuWebhookResult" where
  "handleMessageReceive rt event =
     (let sender = event_sender event;
          message = event_message event;
          ex = parse_content rt message;
          ms = map_option (map map_mention) (raw_mentions message);
          shown = (if truthy (ex_text ex) \<and> ms \<noteq> None \<and> ms \<noteq> Some []
                   then map_sum id Some (replace_mentions rt (the ms) (the (ex_text ex)))
                   else Inr (ex_text ex))
      in case shown of
           Inl e \<Rightarrow> Inl e
         | Inr d \<Rightarrow>
             Inr (Message
               \<lparr>messageId = message_id message,
                chatId = chat_id message,
                chatType = (if chat_type message = ''p2p'' then Direct else Group),
                senderId = first_id (sender_id sender),
                senderOpenId = open_id (sender_id sender),
                senderUserId = user_id (sender_id sender),
                senderUnionId = union_id (sender_id sender),
                messageType = message_type message,
                content = raw_content message,
                text' = ex_text ex,
                displayText = d,
                mentions = ms,
                rootId = root_id message,
                parentId = parent_id message,
                createTime = parseInt10 rt (create_time message),
                tenantKey = tenant_key sender,
                replyToBody = None,
                replyToSenderId = None,
                replyToId = None,
                imageKey = ex_imageKey ex,
                fileKey = ex_fileKey ex,
                fileName = ex_fileName ex,
                mediaPath = None,
                mediaType = None\<rparr>))"

text \<open>
  The body of a request is \<^verbatim>\<open>unknown\<close>. The model keeps the shapes the code tells apart:
  what is no object (or is \<^verbatim>\<open>null\<close>); an object whose \<^verbatim>\<open>type\<close> is \<^verbatim>\<open>"url_verification"\<close>;
  an object with \<^verbatim>\<open>schema\<close> and a \<^verbatim>\<open>header\<close> whose \<^verbatim>\<open>typeof\<close> is \<^verbatim>\<open>"object"\<close>, which \<^verbatim>\<open>null\<close>
  is too (the outer \<^verbatim>\<open>None\<close>), with its \<^verbatim>\<open>event_type\<close> if it has one; any other object. The
  \<^verbatim>\<open>event\<close> member of a callback is cast, not checked: it can be missing, or have the
  members of a message event, or those of a membership event.
\<close>

datatype callback_event =
    No_event
  | Message_event message_receive
  | Chat_event "string option"

datatype webhook_body =
    Not_an_object
  | Url_verification "string option" "string option"
  | Event_callback "string option option" callback_event
  | Other_object

definition handleUrlVerification :: "string option \<Rightarrow> string option \<Rightarrow> string option \<Rightarrow> FeishuWebhookResult" where
  "handleUrlVerification token challenge account_verificationToken =
     (if truthy account_verificationToken \<and> token \<noteq> account_verificationToken
      then Error ''Invalid verification token''
      else Challenge challenge)"

text \<open>
  \<^verbatim>\<open>handleEventCallback\<close>. Reading \<^verbatim>\<open>event_type\<close> of a \<^verbatim>\<open>null\<close> header throws; destructuring
  a missing \<^verbatim>\<open>event\<close> throws; so does reading \<^verbatim>\<open>message.content\<close> when the event has no
  \<^verbatim>\<open>message\<close> member, first inside the \<^verbatim>\<open>try\<close> and then again in its \<^verbatim>\<open>catch\<close>; and so does
  reading \<^verbatim>\<open>chat_id\<close> of a missing \<^verbatim>\<open>event\<close>. The texts are the messages of the \<^verbatim>\<open>TypeError\<close>
  that Node.js throws there.
\<close>

definition handleEventCallback :: "js_runtime \<Rightarrow> string option option \<Rightarrow> callback_event \<Rightarrow> js_error + FeishuWebhookResult" where
  "handleEventCallback rt header event =
     (case header of
        None \<Rightarrow> Inl ''Cannot read properties of null (reading 'event_type')''
      | Some eventType \<Rightarrow>
          if eventType = Some ''im.message.receive_v1'' then
            (case event of
               Message_event ev \<Rightarrow> handleMessageReceive rt ev
             | No_event \<Rightarrow>
                 Inl ''Cannot destructure property 'sender' of 'event.event' as it is undefined.''
             | Chat_event c \<Rightarrow> Inl ''Cannot read properties of undefined (reading 'content')'')
          else if eventType = Some ''im.chat.member.bot.added_v1'' then
            (case event of
               No_event \<Rightarrow> Inl ''Cannot read properties of undefined (reading 'chat_id')''
             | Chat_event c \<Rightarrow> Inr (Bot_added c)
             | Message_event ev \<Rightarrow> Inr (Bot_added None))
          else if eventType = Some ''im.chat.member.bot.deleted_v1'' then
            (case event of
               No_event \<Rightarrow> Inl ''Cannot read properties of undefined (reading 'chat_id')''
             | Chat_event c \<Rightarrow> Inr (Bot_removed c)
             | Message_event ev \<Rightarrow> Inr (Bot_removed None))
          else Inr Unknown)"

text \<open>
  \<^verbatim>\<open>parseWebhookEvent\<close>: the whole body is inside \<^verbatim>\<open>try\<close>, and the \<^verbatim>\<open>catch\<close> returns an
  error result. The result is a sum so that returning, rather than throwing, is something
  to prove.
\<close>

definition parseWebhookEvent :: "js_runtime \<Rightarrow> webhook_body \<Rightarrow> string option \<Rightarrow> js_error + FeishuWebhookResult" where
  "parseWebhookEvent rt body' account_verificationToken =
     (case (case body' of
              Not_an_object \<Rightarrow> Inr Unknown
            | Url_verification token challenge \<Rightarrow>
                Inr (handleUrlVerification token challenge account_verificationToken)
            | Event_callback header event \<Rightarrow> handleEventCallback rt header event
            | Other_object \<Rightarrow> Inr Unknown) of
        Inl error \<Rightarrow> Inr (Error error)
      | Inr result \<Rightarrow> Inr result)"

definition known_message_types :: "string list" where
  "known_message_types =
     [''text'', ''post'', ''image'', ''file'', ''audio'', ''media'', ''sticker'',
      ''interactive'', ''share_chat'', ''share_user'']"

text \<open>The body of a message-receive callback.\<close>

definition receive_body :: "message_receive \<Rightarrow> webhook_body" where
  "receive_body ev = Event_callback (Some (Some ''im.message.receive_v1'')) (Message_event ev)"

section \<open>Mention detection and the access gate (webhook.ts, context.ts)\<close>

text \<open>
  There are two functions named \<^verbatim>\<open>isBotMentioned\<close>. The exported one of webhook.ts counts
  an \<^verbatim>\<open>@_all\<close> mention; the local one of context.ts, which the gate calls, compares ids and
  normalized names and searches the display text.
\<close>

definition isBotMentioned_webhook :: "FeishuInboundMessage \<Rightarrow> string option \<Rightarrow> string option \<Rightarrow> bool" where
  "isBotMentioned_webhook message botOpenId botName =
     (case mentions message of
        None \<Rightarrow> False
      | Some ms \<Rightarrow>
          list_ex (\<lambda>m.
            if truthy botOpenId \<and> Some (mention_id m) = botOpenId then True
            else if truthy botName \<and> Some (mention_name m) = botName then True
            else if mention_key m = ''@_all'' then True
            else False) ms)"

definition normalizeMentionName :: "string \<Rightarrow> string" where
  "normalizeMentionName name = toLowerCase (trim name)"

definition isBotMentioned :: "FeishuInboundMessage \<Rightarrow> string option \<Rightarrow> string option \<Rightarrow> bool" where
  "isBotMentioned message botOpenId botName =
     (case mentions message of
        None \<Rightarrow> False
      | Some ms \<Rightarrow>
          if ms = [] then False
          else if truthy botOpenId \<and> list_ex (\<lambda>m. Some (mention_id m) = botOpenId) ms then True
          else if truthy botName then
            (let normalized = normalizeMentionName (the botName);
                 shown = (case displayText message of
                            Some d \<Rightarrow> d
                          | None \<Rightarrow> (case text' message of Some t \<Rightarrow> t | None \<Rightarrow> []))
             in if list_ex (\<lambda>m. mention_name m \<noteq> [] \<and>
                                  normalizeMentionName (mention_name m) = normalized) ms
                then True
                else if str_includes (toLowerCase shown) (''@'' @ normalized) then True
                else False)
          else False)"

datatype FeishuDmPolicy = Dm_open | Dm_pairing | Dm_allowlist | Dm_disabled

datatype FeishuGroupPolicy = Group_open | Group_allowlist | Group_disabled

record FeishuAccountConfig =
  dmPolicy :: "FeishuDmPolicy option"
  allowFrom :: "string list option"
  groupPolicy :: "FeishuGroupPolicy option"

record ResolvedFeishuAccount =
  verificationToken :: "string option"
  renderMode :: FeishuRenderMode
  requireMention :: bool
  config :: FeishuAccountConfig

text \<open>
  The policy checks at the head of \<^verbatim>\<open>buildFeishuMessageContext\<close>, up to the point where the
  message body is built. A \<^verbatim>\<open>Blocked\<close> result is a \<^verbatim>\<open>return null\<close>, with the line the
  function logs; \<^verbatim>\<open>Passed\<close> is the code going on to build the context, with whether it
  warned that the bot's identity is unavailable.
\<close>

datatype gate =
    Blocked string
  | Passed bool

definition gate_sender :: "FeishuInboundMessage \<Rightarrow> string" where
  "gate_sender message =
     (case senderOpenId message of Some s \<Rightarrow> s | None \<Rightarrow> senderId message)"

definition buildFeishuMessageContext_gate ::
  "ResolvedFeishuAccount \<Rightarrow> FeishuInboundMessage \<Rightarrow> string option \<Rightarrow> string option \<Rightarrow> gate" where
  "buildFeishuMessageContext_gate account message botOpenId botName =
     (let isGroup = (chatType message = Group) in
      if \<not> isGroup then
        (let dm = (case dmPolicy (config account) of None \<Rightarrow> Dm_pairing | Some p \<Rightarrow> p) in
         if dm = Dm_disabled then Blocked ''blocked DM (dmPolicy=disabled)''
         else if dm \<noteq> Dm_open then
           (let allow = (case allowFrom (config account) of None \<Rightarrow> [] | Some l \<Rightarrow> l);
                allowed = (allow = [] \<or> gate_sender message \<in> set allow)
            in if \<not> allowed \<and> dm = Dm_allowlist
               then Blocked (''blocked unauthorized DM sender '' @ gate_sender message)
               else Passed False)
         else Passed False)
      else
        (let gp = (case groupPolicy (config account) of None \<Rightarrow> Group_allowlist | Some p \<Rightarrow> p) in
         if gp = Group_disabled then Blocked ''blocked group message (groupPolicy=disabled)''
         else
           (let wasMentioned = isBotMentioned message botOpenId botName;
                canIdentifyBot = (truthy botOpenId \<or> truthy botName)
            in if requireMention account \<and> \<not> wasMentioned then
                 (if \<not> canIdentifyBot then Passed True
                  else Blocked ''skipping group message (no mention)'')
               else Passed False)))"

definition gate_allows :: "gate \<Rightarrow> bool" where
  "gate_allows g = (case g of Blocked why \<Rightarrow> False | Passed warned \<Rightarrow> True)"

section \<open>Reply context (inbound.ts, channel.ts)\<close>

text \<open>The message inside the result of \<^verbatim>\<open>api.getMessage\<close>.\<close>

record parent_message =
  parent_messageId :: string
  parent_msgType :: string
  parent_content :: string
  parent_senderId :: string
  parent_senderType :: string
  parent_chatId :: string
  parent_createTime :: string
  parent_body :: "string option"

record getMessage_result =
  ok :: bool
  message :: "parent_message option"
  error :: "string option"

text \<open>
  \<^verbatim>\<open>fetchReplyContext\<close>. The call \<^verbatim>\<open>api.getMessage(account, parentId)\<close> goes to the platform:
  it is a parameter, a function of the parent id that throws or returns a result. The
  second component is what is logged as a warning.
\<close>

definition fetchReplyContext ::
  "(string \<Rightarrow> js_error + getMessage_result) \<Rightarrow> FeishuInboundMessage \<Rightarrow>
   FeishuInboundMessage \<times> string list" where
  "fetchReplyContext getMessage inbound =
     (if \<not> truthy (parentId inbound) then (inbound, [])
      else
        (case getMessage (the (parentId inbound)) of
           Inl err \<Rightarrow>
             (inbound,
              [''failed to fetch parent message '' @ the (parentId inbound) @ '': '' @ err])
         | Inr parentResult \<Rightarrow>
             (case message parentResult of
                Some parent \<Rightarrow>
                  if ok parentResult
                  then (inbound\<lparr>replyToBody := parent_body parent,
                                replyToSenderId := Some (parent_senderId parent),
                                replyToId := parentId inbound\<rparr>, [])
                  else (inbound, [])
              | None \<Rightarrow> (inbound, []))))"

section \<open>Reconnection of the native WebSocket client (websocket.ts)\<close>

datatype WSConnectionState = Disconnected | Connecting | Connected | Reconnecting

text \<open>
  The variables of \<^verbatim>\<open>createNativeWSClient\<close> that the handlers change. A pending timer is
  its delay in milliseconds; \<^verbatim>\<open>ws\<close> and \<^verbatim>\<open>heartbeatInterval\<close> are whether they are set.
\<close>

record native_client =
  state :: WSConnectionState
  ws :: bool
  heartbeatInterval :: bool
  reconnectTimeout :: "nat option"
  reconnectAttempts :: nat

definition maxReconnectAttempts :: nat where
  "maxReconnectAttempts = 10"

definition baseReconnectDelay :: nat where
  "baseReconnectDelay = 1000"

definition initial_client :: native_client where
  "initial_client =
     \<lparr>state = Disconnected, ws = False, heartbeatInterval = False,
      reconnectTimeout = None, reconnectAttempts = 0\<rparr>"

definition cleanup :: "native_client \<Rightarrow> native_client" where
  "cleanup c = c\<lparr>heartbeatInterval := False, reconnectTimeout := None, ws := False\<rparr>"

definition onopen :: "native_client \<Rightarrow> native_client" where
  "onopen c = c\<lparr>state := Connected, reconnectAttempts := 0, heartbeatInterval := True\<rparr>"

definition onclose :: "native_client \<Rightarrow> native_client" where
  "onclose c =
     (let c1 = (cleanup c)\<lparr>state := Disconnected\<rparr> in
      if reconnectAttempts c1 < maxReconnectAttempts
      then c1\<lparr>state := Reconnecting,
               reconnectTimeout := Some (baseReconnectDelay * 2 ^ reconnectAttempts c1),
               reconnectAttempts := reconnectAttempts c1 + 1\<rparr>
      else c1)"

definition stop :: "native_client \<Rightarrow> native_client" where
  "stop c = (cleanup (c\<lparr>reconnectAttempts := maxReconnectAttempts\<rparr>))\<lparr>state := Disconnected\<rparr>"

text \<open>
  What happens to the client after it was started: its socket opens, its socket closes,
  the pending reconnect timer fires and \<^verbatim>\<open>connect()\<close> creates a socket, the timer fires and
  \<^verbatim>\<open>connect()\<close> throws before it has a socket (a request for the token or the endpoint
  fails; the error goes to \<^verbatim>\<open>onError\<close>), or \<^verbatim>\<open>stop()\<close> is called. A timer that is not
  pending cannot fire.
\<close>

datatype ws_event = Ws_open | Ws_close | Timer_fires | Timer_throws | Stop

definition handle :: "native_client \<Rightarrow> ws_event \<Rightarrow> native_client" where
  "handle c e =
     (case e of
        Ws_open \<Rightarrow> onopen c
      | Ws_close \<Rightarrow> onclose c
      | Timer_fires \<Rightarrow>
          (case reconnectTimeout c of
             None \<Rightarrow> c
           | Some delay \<Rightarrow> c\<lparr>state := Connecting, reconnectTimeout := None, ws := True\<rparr>)
      | Timer_throws \<Rightarrow>
          (case reconnectTimeout c of
             None \<Rightarrow> c
           | Some delay \<Rightarrow> c\<lparr>state := Connecting, reconnectTimeout := None\<rparr>)
      | Stop \<Rightarrow> stop c)"

definition run :: "native_client \<Rightarrow> ws_event list \<Rightarrow> native_client" where
  "run c es = foldl handle c es"

text \<open>The delays of the reconnect timers that a sequence of events sets, in order.\<close>

fun scheduled :: "native_client \<Rightarrow> ws_event list \<Rightarrow> nat list" where
  "scheduled c [] = []"
| "scheduled c (e # es) =
     (case e of
        Ws_close \<Rightarrow> (case reconnectTimeout (onclose c) of None \<Rightarrow> [] | Some delay \<Rightarrow> [delay])
      | _ \<Rightarrow> [])
     @ scheduled (handle c e) es"

section \<open>Example inputs\<close>

text \<open>
  Concrete inputs for the examples below: a group message without mentions, an account with
  the default policies, a message-receive event whose content is not JSON, message and
  conversation ids that are pairwise different and not empty (\<^verbatim>\<open>m\<close>, \<^verbatim>\<open>mm\<close>, \<^verbatim>\<open>mmm\<close>, ...),
  and two behaviours of the message-fetch call.
\<close>

definition example_inbound :: FeishuInboundMessage where
  "example_inbound =
     \<lparr>messageId = ''om_1'', chatId = ''oc_1'', chatType = Group, senderId = ''ou_alice'',
      senderOpenId = Some ''ou_alice'', senderUserId = None, senderUnionId = None,
      messageType = ''text'', content = ''{\"text\":\"hi\"}'', text' = Some ''hi'',
      displayText = Some ''hi'', mentions = None, rootId = None, parentId = None,
      createTime = Some 1700000000000, tenantKey = ''t1'', replyToBody = None,
      replyToSenderId = None, replyToId = None, imageKey = None, fileKey = None,
      fileName = None, mediaPath = None, mediaType = None\<rparr>"

definition example_account :: ResolvedFeishuAccount where
  "example_account =
     \<lparr>verificationToken = None, renderMode = Auto, requireMention = True,
      config = \<lparr>dmPolicy = None, allowFrom = None, groupPolicy = None\<rparr>\<rparr>"

definition example_entry :: HistoryEntry where
  "example_entry =
     \<lparr>sender = ''ou_alice'', body = ''hi'', timestamp = 1700000000000,
      entry_messageId = ''om_1''\<rparr>"

definition example_ids :: "nat \<Rightarrow> string list" where
  "example_ids k = map (\<lambda>n. replicate (Suc n) CHR ''m'') [0..<k]"

text \<open>
  A runtime that agrees with JavaScript on what the examples pass to it:
  \<^verbatim>\<open>JSON.parse("hello")\<close> throws, \<^verbatim>\<open>new RegExp("(", "g")\<close> throws, and
  \<^verbatim>\<open>parseInt("1700000000000", 10)\<close> is that number.
\<close>

definition example_runtime :: js_runtime where
  "example_runtime =
     \<lparr>JSON_parse = (\<lambda>s. if s = ''{\"text\":\"hi\"}'' then Some (JObj [(''text'', JStr ''hi'')])
                         else None),
      RegExp_g = (\<lambda>source. if source = ''(''
                    then Inl ''Invalid regular expression: /(/g: Unterminated group''
                    else Inr (\<lambda>subject replacement. subject)),
      parseInt10 = (\<lambda>s. if s = ''1700000000000'' then Some 1700000000000 else None)\<rparr>"

definition example_event :: message_receive where
  "example_event =
     \<lparr>event_sender =
        \<lparr>sender_id = \<lparr>union_id = None, user_id = None, open_id = Some ''ou_alice''\<rparr>,
         sender_type = ''user'', tenant_key = ''t1''\<rparr>,
      event_message =
        \<lparr>message_id = ''om_1'', root_id = None, parent_id = None,
         create_time = ''1700000000000'', chat_id = ''oc_1'', chat_type = ''group'',
         message_type = ''text'', raw_content = ''hello'', raw_mentions = None\<rparr>\<rparr>"

definition example_bad_mention :: event_mention where
  "example_bad_mention =
     \<lparr>raw_key = ''('',
      raw_id = \<lparr>union_id = None, user_id = None, open_id = Some ''ou_bob''\<rparr>,
      raw_name = ''Bob''\<rparr>"

definition getMessage_throws :: "string \<Rightarrow> js_error + getMessage_result" where
  "getMessage_throws parent = Inl ''Error: fetch failed''"

definition getMessage_not_found :: "string \<Rightarrow> js_error + getMessage_result" where
  "getMessage_not_found parent =
     Inr \<lparr>ok = False, message = None, error = Some ''Message not found''\<rparr>"

section \<open>Facts about the containers\<close>

lemma map_of_Map_set: "map_of (Map_set k v m) k' = (if k' = k then Some v else map_of m k')"
  by (induction m) auto

lemma keys_Map_set:
  "map fst (Map_set k v m) = (if k \<in> set (map fst m) then map fst m else map fst m @ [k])"
  by (induction m) auto

lemma length_Map_set:
  "length (Map_set k v m) = (if k \<in> set (map fst m) then length m else Suc (length m))"
  by (induction m) auto

lemma Map_set_fresh: "k \<notin> set (map fst m) \<Longrightarrow> Map_set k v m = m @ [(k, v)]"
  by (induction m) auto

lemma Map_set_last: "k \<notin> set (map fst m) \<Longrightarrow> Map_set k v (m @ [(k, w)]) = m @ [(k, v)]"
  by (induction m) auto

lemma Map_delete_last: "k \<notin> set (map fst m) \<Longrightarrow> Map_delete k (m @ [(k, v)]) = m"
  by (induction m) (auto simp: Map_delete_def)

lemma map_of_fresh: "k \<notin> set (map fst m) \<Longrightarrow> map_of m k = None"
  by (simp add: map_of_eq_None_iff)

lemma Set_add_fresh: "x \<notin> set s \<Longrightarrow> Set_add x s = s @ [x]"
  by (simp add: Set_add_def)

lemma filter_not_in_take:
  "distinct xs \<Longrightarrow> filter (\<lambda>x. x \<notin> set (take n xs)) xs = drop n xs"
proof (induction xs arbitrary: n)
  case Nil
  then show ?case by simp
next
  case (Cons a xs)
  show ?case
  proof (cases n)
    case 0
    then show ?thesis by simp
  next
    case (Suc k)
    have "filter (\<lambda>x. x \<noteq> a \<and> x \<notin> set (take k xs)) xs = filter (\<lambda>x. x \<notin> set (take k xs)) xs"
      using Cons.prems by (intro filter_cong) auto
    with Cons Suc show ?thesis
      by simp
  qed
qed

lemma Map_delete_fresh: "k \<notin> set (map fst m) \<Longrightarrow> Map_delete k m = m"
  by (induction m) (auto simp: Map_delete_def)

lemma Map_delete_absent: "k \<notin> set (map fst (Map_delete k m))"
  by (auto simp: Map_delete_def)

lemma Map_delete_Map_set: "Map_delete k (Map_set k v m) = Map_delete k m"
  by (induction m) (auto simp: Map_delete_def)

lemma length_Map_delete: "length (Map_delete k m) \<le> length m"
  by (simp add: Map_delete_def)

lemma keys_Map_delete: "map fst (Map_delete k m) = filter (\<lambda>k'. k' \<noteq> k) (map fst m)"
  by (induction m) (auto simp: Map_delete_def)

lemma map_of_snoc_fresh: "k \<notin> set (map fst m) \<Longrightarrow> map_of (m @ [(k, v)]) k = Some v"
  by (simp add: map_add_def map_of_fresh)

lemma filter_keys_not_in_take:
  "distinct (map fst m) \<Longrightarrow> filter (\<lambda>p. fst p \<notin> set (take n (map fst m))) m = drop n m"
proof (induction m arbitrary: n)
  case Nil
  then show ?case by simp
next
  case (Cons a m)
  show ?case
  proof (cases n)
    case 0
    then show ?thesis by simp
  next
    case (Suc k)
    have "fst a \<notin> fst ` set m"
      using Cons.prems by simp
    then have other: "fst p \<noteq> fst a" if "p \<in> set m" for p
      using that by (metis imageI)
    have "filter (\<lambda>p. fst p \<noteq> fst a \<and> fst p \<notin> set (take k (map fst m))) m
        = filter (\<lambda>p. fst p \<notin> set (take k (map fst m))) m"
      by (intro filter_cong) (auto simp: other)
    with Cons Suc show ?thesis
      by simp
  qed
qed

lemma length_filter_not_in:
  assumes "distinct s" and "distinct A" and "set A \<subseteq> set s"
  shows "length (filter (\<lambda>x. x \<notin> set A) s) = length s - length A"
proof -
  have "length (filter (\<lambda>x. x \<notin> set A) s) = card ({x. x \<notin> set A} \<inter> set s)"
    using assms(1) by (rule distinct_length_filter)
  also have "{x. x \<notin> set A} \<inter> set s = set s - set A"
    by auto
  also have "card (set s - set A) = card (set s) - card (set A)"
    using assms(3) by (simp add: card_Diff_subset)
  finally show ?thesis
    using assms(1,2) by (simp add: distinct_card)
qed

lemma length_filter_nonempty:
  assumes "distinct (xs :: string list)"
  shows "length xs \<le> Suc (length (filter (\<lambda>v. v \<noteq> []) xs))"
proof -
  have "length (filter (\<lambda>v. v = []) xs) \<le> 1"
    using assms by (induction xs) (auto simp: filter_empty_conv)
  moreover have "length (filter (\<lambda>v. v \<noteq> []) xs) + length (filter (\<lambda>v. \<not> v \<noteq> []) xs) = length xs"
    by (rule sum_length_filter_compl)
  ultimately show ?thesis
    by simp
qed

lemma length_example_ids: "length (example_ids k) = k"
  by (simp add: example_ids_def)

lemma distinct_example_ids: "distinct (example_ids k)"
proof -
  have "inj (\<lambda>n. replicate (Suc n) CHR ''m'')"
    by (rule injI) (metis length_replicate nat.inject)
  then show ?thesis
    unfolding example_ids_def by (simp add: distinct_map inj_on_def)
qed

lemma example_ids_nonempty: "[] \<notin> set (example_ids k)"
  by (auto simp: example_ids_def)

lemma example_ids_hd: "x \<in> set (example_ids k) \<Longrightarrow> hd x = CHR ''m''"
  by (auto simp: example_ids_def)

lemma hd_example_ids: "0 < k \<Longrightarrow> hd (example_ids k) = ''m''"
  by (simp add: example_ids_def hd_map)

section \<open>Group history\<close>

lemma trim_history_drop: "trim_history l h = drop (length h - l) h"
proof (induction l h rule: trim_history.induct)
  case (1 l h)
  show ?case
  proof (cases "length h > l")
    case True
    then obtain x t where h: "h = x # t"
      by (cases h) auto
    with True 1 show ?thesis
      by (subst trim_history.simps) (simp add: Suc_diff_le)
  next
    case False
    then show ?thesis
      by (subst trim_history.simps) simp
  qed
qed

lemma history_record_fresh:
  assumes "length m \<le> G" and "c \<notin> set (map fst m)"
  shows "history_record L G m c e = m @ [(c, trim_history L [e])]"
proof -
  have none: "map_of m c = None"
    using assms(2) by (rule map_of_fresh)
  have has: "Map_has (m @ [(c, v)]) c" for v
    using none by (simp add: Map_has_def map_add_def)
  show ?thesis
    using assms none has
    by (simp add: history_record_def Let_def Map_set_fresh Map_set_last Map_delete_last)
qed

lemma history_records_fresh:
  "distinct (map fst m @ map fst calls) \<Longrightarrow> length m + length calls \<le> Suc G \<Longrightarrow>
   history_records L G m calls = m @ map (\<lambda>call. (fst call, trim_history L [snd call])) calls"
proof (induction calls arbitrary: m)
  case Nil
  then show ?case by (simp add: history_records_def)
next
  case (Cons call calls)
  then have step: "history_record L G m (fst call) (snd call)
      = m @ [(fst call, trim_history L [snd call])]"
    by (intro history_record_fresh) auto
  from Cons.prems
  have "distinct (map fst (m @ [(fst call, trim_history L [snd call])]) @ map fst calls)"
    and "length (m @ [(fst call, trim_history L [snd call])]) + length calls \<le> Suc G"
    by auto
  from Cons.IH [OF this] step show ?case
    by (simp add: history_records_def)
qed

text \<open>
  What \<^verbatim>\<open>record\<close> does, in one equation: after the eviction, the conversation is moved to
  the end of the map with the new entry appended to its entries, trimmed.
\<close>

lemma evict_groups_filter:
  "evict_groups n it m =
     filter (\<lambda>p. fst p \<notin> set (filter (\<lambda>k. k \<noteq> []) (take n it))) m"
  by (induction n it m rule: evict_groups.induct) (auto simp: Map_delete_def intro: filter_cong)

lemma evict_groups_drop:
  assumes "distinct (map fst m)" and "[] \<notin> set (map fst m)"
  shows "evict_groups n (map fst m) m = drop n m"
proof -
  have "filter (\<lambda>k. k \<noteq> []) (take n (map fst m)) = take n (map fst m)"
    using assms(2) by (intro filter_True) (auto dest: in_set_takeD)
  then show ?thesis
    using filter_keys_not_in_take [OF assms(1)] by (simp add: evict_groups_filter)
qed

lemma history_record_eq:
  "history_record L G m c e =
     (let m1 = (if length m > G then evict_groups (length m - G) (map fst m) m else m)
      in Map_delete c m1 @ [(c, trim_history L (history_get m1 c @ [e]))])"
proof -
  define m1 where "m1 = (if length m > G then evict_groups (length m - G) (map fst m) m else m)"
  define h where "h = trim_history L (history_get m1 c @ [e])"
  define m2 where "m2 = (case map_of m1 c of None \<Rightarrow> Map_set c [] m1 | Some h \<Rightarrow> m1)"
  have del: "Map_delete c (Map_set c h m2) = Map_delete c m1"
    by (simp add: Map_delete_Map_set m2_def split: option.splits)
  have "history_record L G m c e = Map_set c h (Map_delete c (Map_set c h m2))"
    by (simp add: history_record_def Let_def m1_def [symmetric] h_def m2_def history_get_def
        Map_has_def map_of_Map_set)
  also have "\<dots> = Map_delete c m1 @ [(c, h)]"
    unfolding del by (rule Map_set_fresh) (rule Map_delete_absent)
  finally show ?thesis
    by (simp add: Let_def m1_def h_def)
qed

lemma history_get_history_record:
  "history_get (history_record L G m c e) c =
     trim_history L (history_get
       (if length m > G then evict_groups (length m - G) (map fst m) m else m) c @ [e])"
  unfolding history_record_eq Let_def
  by (simp only: history_get_def [of "_ @ _"] map_of_snoc_fresh [OF Map_delete_absent] option.case)

text \<open>
  With conversation ids that are not empty, the tracked conversations never exceed
  \<^verbatim>\<open>maxGroups + 1\<close>, and a \<^verbatim>\<open>record\<close> into a new conversation at that size evicts the one
  touched least recently.
\<close>

lemma history_record_bounded:
  assumes "tracked_ok m" and "c \<noteq> []"
  shows "tracked_ok (history_record L G m c e) \<and> groupCount (history_record L G m c e) \<le> Suc G"
proof -
  define m1 where "m1 = (if length m > G then evict_groups (length m - G) (map fst m) m else m)"
  have m1: "m1 = (if length m > G then drop (length m - G) m else m)"
    using assms(1) by (simp add: m1_def evict_groups_drop tracked_ok_def)
  then have len: "length m1 \<le> G"
    by simp
  have ok: "distinct (map fst m1)" "[] \<notin> set (map fst m1)"
    using assms(1) by (auto simp: m1 tracked_ok_def drop_map [symmetric] dest: in_set_dropD)
  have eq: "history_record L G m c e
      = Map_delete c m1 @ [(c, trim_history L (history_get m1 c @ [e]))]"
    by (simp add: history_record_eq Let_def m1_def)
  have "tracked_ok (history_record L G m c e)"
    using ok assms(2) by (auto simp: eq tracked_ok_def keys_Map_delete)
  moreover have "groupCount (history_record L G m c e) \<le> Suc G"
    using len length_Map_delete [of c m1] by (simp add: eq groupCount_def)
  ultimately show ?thesis
    by simp
qed

lemma history_records_bounded:
  assumes "[] \<notin> set (map fst calls)"
  shows "groupCount (history_records L G [] calls) \<le> Suc G"
proof -
  have "tracked_ok (history_records L G m calls)
      \<and> groupCount (history_records L G m calls) \<le> Suc G"
    if "tracked_ok m" and "groupCount m \<le> Suc G" and "[] \<notin> set (map fst calls)" for m
    using that
  proof (induction calls arbitrary: m)
    case Nil
    then show ?case by (simp add: history_records_def)
  next
    case (Cons call calls)
    then have "fst call \<noteq> []"
      by auto
    from history_record_bounded [OF Cons.prems(1) this, of L G "snd call"] Cons.prems(3)
    have "tracked_ok (history_records L G (history_record L G m (fst call) (snd call)) calls)
      \<and> groupCount (history_records L G (history_record L G m (fst call) (snd call)) calls) \<le> Suc G"
      by (intro Cons.IH) auto
    then show ?case
      by (simp add: history_records_def)
  qed
  from this [of "[]"] assms show ?thesis
    by (simp add: tracked_ok_def groupCount_def)
qed

lemma history_record_evicts_oldest:
  assumes "tracked_ok (p # m)" and "length (p # m) = Suc G" and "c \<notin> set (map fst (p # m))"
  shows "history_record L G (p # m) c e = m @ [(c, trim_history L [e])]"
proof -
  have "evict_groups (length (p # m) - G) (map fst (p # m)) (p # m)
      = drop (length (p # m) - G) (p # m)"
    using assms(1) by (intro evict_groups_drop) (auto simp: tracked_ok_def)
  with assms(2) have m1: "evict_groups (length (p # m) - G) (map fst (p # m)) (p # m) = m"
    by simp
  have absent: "c \<notin> set (map fst m)"
    using assms(3) by simp
  have "history_record L G (p # m) c e
      = Map_delete c m @ [(c, trim_history L (history_get m c @ [e]))]"
    unfolding history_record_eq Let_def m1 using assms(2) by simp
  then show ?thesis
    using absent by (simp add: Map_delete_fresh history_get_def map_of_fresh)
qed

text \<open>
  C1. The claim is that the tracked conversations never exceed \<^verbatim>\<open>maxGroups\<close> and that
  recording into the 101st distinct conversation evicts the least recently touched one.
  \<^verbatim>\<open>record\<close> compares the size with \<^verbatim>\<open>maxGroups\<close> before it inserts, and with \<^verbatim>\<open>>\<close>: at a
  size of 100 nothing is evicted and the 101st conversation is added. After one entry has
  been recorded into each of 101 distinct conversations, with the default limits,
  \<^verbatim>\<open>groupCount()\<close> is 101 and the conversation touched first still has its entry.
\<close>

theorem history_tracks_101_groups:
  "groupCount (history_records 10 100 [] (map (\<lambda>c. (c, example_entry)) (example_ids 101))) = 101
   \<and> history_get (history_records 10 100 [] (map (\<lambda>c. (c, example_entry)) (example_ids 101)))
        ''m'' = [example_entry]"
proof -
  have keys: "map fst (map (\<lambda>c. (c, example_entry)) (example_ids 101)) = example_ids 101"
    by (simp add: comp_def)
  have all: "history_records 10 100 [] (map (\<lambda>c. (c, example_entry)) (example_ids 101))
      = map (\<lambda>c. (c, [example_entry])) (example_ids 101)"
    using history_records_fresh [of "[]" "map (\<lambda>c. (c, example_entry)) (example_ids 101)" 100 10]
    by (simp add: keys distinct_example_ids length_example_ids trim_history_drop comp_def)
  have "hd (example_ids 101) \<in> set (example_ids 101)"
    by (rule hd_in_set) (use length_example_ids [of 101] in auto)
  then have first: "''m'' \<in> set (example_ids 101)"
    by (simp add: hd_example_ids)
  have "map_of (map (\<lambda>c. (c, [example_entry])) (example_ids 101)) ''m'' = Some [example_entry]"
    using first by (simp add: map_of_map_restrict)
  then show ?thesis
    unfolding all by (simp add: groupCount_def history_get_def length_example_ids)
qed

lemma history_clear_unknown_keys:
  "c \<notin> set (map fst m) \<Longrightarrow> map fst (history_clear m c) = map fst m @ [c]"
  by (simp add: history_clear_def keys_Map_set)

lemma keys_foldl_history_clear:
  "distinct ids \<Longrightarrow> set ids \<inter> set (map fst m) = {} \<Longrightarrow>
   map fst (foldl history_clear m ids) = map fst m @ ids"
proof (induction ids arbitrary: m)
  case Nil
  then show ?case by simp
next
  case (Cons c ids)
  have fresh: "c \<notin> set (map fst m)"
    using Cons.prems(2) by auto
  have keys: "map fst (history_clear m c) = map fst m @ [c]"
    using fresh by (rule history_clear_unknown_keys)
  have "set ids \<inter> set (map fst (history_clear m c)) = {}"
    using Cons.prems keys by auto
  with Cons.IH [of "history_clear m c"] Cons.prems(1) keys show ?case
    by simp
qed

text \<open>
  C10. \<^verbatim>\<open>clear(chatId)\<close> on a conversation that is not tracked is not a no-op: the
  conversation becomes tracked, with an empty entry list, and \<^verbatim>\<open>groupCount()\<close> grows by
  one. \<^verbatim>\<open>clear\<close> never looks at \<^verbatim>\<open>maxGroups\<close> (the eviction check is in \<^verbatim>\<open>record\<close> alone),
  so clearing any number of distinct unknown conversations adds that number to the count,
  whatever the count was: it grows without bound.
\<close>

theorem history_clear_unknown_grows:
  assumes "distinct ids" and "set ids \<inter> set (map fst m) = {}" and "c \<notin> set (map fst m)"
  shows "groupCount (history_clear m c) = groupCount m + 1
       \<and> Map_has (history_clear m c) c
       \<and> history_get (history_clear m c) c = []
       \<and> groupCount (foldl history_clear m ids) = groupCount m + length ids"
proof -
  have one: "groupCount (history_clear m c) = groupCount m + 1"
    using assms(3) by (simp add: groupCount_def history_clear_def length_Map_set)
  have tracked: "Map_has (history_clear m c) c"
    by (simp add: Map_has_def history_clear_def map_of_Map_set)
  have empty: "history_get (history_clear m c) c = []"
    by (simp add: history_get_def history_clear_def map_of_Map_set)
  have "length (map fst (foldl history_clear m ids)) = length (map fst m @ ids)"
    using keys_foldl_history_clear [OF assms(1,2)] by simp
  then have many: "groupCount (foldl history_clear m ids) = groupCount m + length ids"
    by (simp add: groupCount_def)
  from one tracked empty many show ?thesis
    by simp
qed

theorem history_clear_unknown_grows_witness:
  "groupCount (history_clear [(''oc_a'', [])] ''oc_b'') = groupCount [(''oc_a'', [])] + 1
   \<and> Map_has (history_clear [(''oc_a'', [])] ''oc_b'') ''oc_b''
   \<and> history_get (history_clear [(''oc_a'', [])] ''oc_b'') ''oc_b'' = []
   \<and> groupCount (foldl history_clear [(''oc_a'', [])] [''oc_b'', ''oc_c'', ''oc_d''])
       = groupCount [(''oc_a'', [])] + length [''oc_b'', ''oc_c'', ''oc_d'']"
  using history_clear_unknown_grows
    [of "[''oc_b'', ''oc_c'', ''oc_d'']" "[(''oc_a'', [])]" "''oc_b''"]
  by simp

section \<open>Message deduplication\<close>

lemma markProcessed_below:
  "length s < M \<Longrightarrow> x \<notin> set s \<Longrightarrow> markProcessed M T s x = s @ [x]"
  by (simp add: markProcessed_def Set_add_fresh)

lemma foldl_markProcessed_below:
  "distinct (s @ xs) \<Longrightarrow> length s + length xs \<le> M \<Longrightarrow>
   foldl (markProcessed M T) s xs = s @ xs"
proof (induction xs arbitrary: s)
  case Nil
  then show ?case by simp
next
  case (Cons x xs)
  then have step: "markProcessed M T s x = s @ [x]"
    by (intro markProcessed_below) auto
  from Cons.prems have "distinct ((s @ [x]) @ xs)" and "length (s @ [x]) + length xs \<le> M"
    by auto
  from Cons.IH [OF this] step show ?case
    by simp
qed

lemma evict_processed_filter:
  "evict_processed n it s =
     filter (\<lambda>x. x \<notin> set (filter (\<lambda>v. v \<noteq> []) (take n it))) s"
  by (induction n it s rule: evict_processed.induct) (auto simp: Set_delete_def intro: filter_cong)

text \<open>
  The set stays a set, a marked id is processed, and whenever \<^verbatim>\<open>cleanupThreshold + 2\<close> is at
  most \<^verbatim>\<open>maxSize\<close> (as with the defaults) the size never exceeds \<^verbatim>\<open>maxSize\<close>, whatever the
  ids are. When no id in the set is empty, a \<^verbatim>\<open>markProcessed\<close> at a size of at least
  \<^verbatim>\<open>maxSize\<close> evicts exactly the \<^verbatim>\<open>size - cleanupThreshold\<close> oldest ids before it inserts.
\<close>

lemma markProcessed_distinct: "distinct s \<Longrightarrow> distinct (markProcessed M T s x)"
  by (simp add: markProcessed_def Set_add_def evict_processed_filter)

lemma isProcessed_markProcessed: "isProcessed (markProcessed M T s x) x"
  by (simp add: isProcessed_def markProcessed_def Set_add_def)

lemma length_evict_processed:
  assumes "distinct s" and "n \<le> length s"
  shows "length (evict_processed n s s) \<le> Suc (length s - n)"
proof -
  let ?A = "filter (\<lambda>v. v \<noteq> []) (take n s)"
  have "distinct ?A" and "set ?A \<subseteq> set s"
    using assms(1) by (auto dest: in_set_takeD)
  with assms(1) have "length (evict_processed n s s) = length s - length ?A"
    unfolding evict_processed_filter by (rule length_filter_not_in)
  moreover have "n \<le> Suc (length ?A)"
    using length_filter_nonempty [of "take n s"] assms by simp
  ultimately show ?thesis
    by simp
qed

lemma length_Set_add: "length (Set_add x s) \<le> Suc (length s)"
  by (simp add: Set_add_def)

lemma markProcessed_size_le:
  assumes "T + 2 \<le> M" and "distinct s" and "length s \<le> M"
  shows "length (markProcessed M T s x) \<le> M"
proof (cases "length s \<ge> M")
  case True
  with assms have "length (evict_processed (length s - T) s s) \<le> Suc (length s - (length s - T))"
    by (intro length_evict_processed) auto
  with assms True have "length (evict_processed (length s - T) s s) \<le> Suc T"
    by simp
  with True assms(1) length_Set_add [of x "evict_processed (length s - T) s s"] show ?thesis
    by (simp add: markProcessed_def)
next
  case False
  with length_Set_add [of x s] show ?thesis
    by (simp add: markProcessed_def)
qed

lemma dedupe_size_never_exceeds:
  assumes "T + 2 \<le> M"
  shows "dedupe_size (foldl (markProcessed M T) [] ids) \<le> M"
proof -
  have "distinct (foldl (markProcessed M T) s ids) \<and> length (foldl (markProcessed M T) s ids) \<le> M"
    if "distinct s" and "length s \<le> M" for s
    using that
  proof (induction ids arbitrary: s)
    case Nil
    then show ?case by simp
  next
    case (Cons x ids)
    then show ?case
      using markProcessed_distinct [of s M T x] markProcessed_size_le [OF assms, of s x]
      by simp
  qed
  from this [of "[]"] show ?thesis
    by (simp add: dedupe_size_def)
qed

lemma markProcessed_evicts_oldest:
  assumes "distinct s" and "[] \<notin> set s" and "M \<le> length s" and "T \<le> length s"
  shows "markProcessed M T s x = Set_add x (drop (length s - T) s)"
proof -
  have "filter (\<lambda>v. v \<noteq> []) (take (length s - T) s) = take (length s - T) s"
    using assms(2) by (intro filter_True) (auto dest: in_set_takeD)
  then have "evict_processed (length s - T) s s = drop (length s - T) s"
    using filter_not_in_take [OF assms(1)] by (simp add: evict_processed_filter)
  with assms(3) show ?thesis
    by (simp add: markProcessed_def)
qed

lemma markProcessed_empty_id_oldest:
  assumes "distinct ids" and "[] \<notin> set ids" and "new \<notin> set ids" and "new \<noteq> []"
    and "Suc (length ids) \<ge> M" and "T < Suc (length ids)"
  shows "markProcessed M T ([] # ids) new = [] # drop (length ids - T) ids @ [new]"
proof -
  have nonempty: "filter (\<lambda>v. v \<noteq> []) (take (length ids - T) ids) = take (length ids - T) ids"
    using assms(2) by (intro filter_True) (auto dest: in_set_takeD)
  have "evict_processed (Suc (length ids) - T) ([] # ids) ([] # ids)
      = [] # drop (length ids - T) ids"
    using assms(2,6) filter_not_in_take [OF assms(1)]
    by (auto simp: evict_processed_filter Suc_diff_le nonempty dest: in_set_takeD)
  moreover have "new \<notin> set ([] # drop (length ids - T) ids)"
    using assms(3,4) by (auto dest: in_set_dropD)
  ultimately show ?thesis
    using assms(5) by (simp add: markProcessed_def Set_add_fresh)
qed

text \<open>
  C3. The claim is that \<^verbatim>\<open>size()\<close> never exceeds \<^verbatim>\<open>maxSize\<close> and that a \<^verbatim>\<open>markProcessed\<close> at a
  size of at least \<^verbatim>\<open>maxSize\<close> evicts exactly \<^verbatim>\<open>size - cleanupThreshold\<close> entries, oldest first.
  The cleanup loop deletes a value only when it is truthy, and the empty message id (which
  \<^verbatim>\<open>convertSdkEvent\<close> produces for an event without one) is not. With the default limits,
  after the empty id and 999 other ids have been marked, the size is 1000; the next
  \<^verbatim>\<open>markProcessed\<close> runs 200 rounds, deletes 199 ids and leaves 802, the empty id among them,
  where the claim has 200 deleted and 801 left.
\<close>

theorem markProcessed_keeps_empty_id:
  "dedupe_size (foldl (markProcessed 1000 800) [] ([] # example_ids 999)) = 1000
   \<and> dedupe_size (markProcessed 1000 800
         (foldl (markProcessed 1000 800) [] ([] # example_ids 999)) ''new'') = 802
   \<and> isProcessed (markProcessed 1000 800
         (foldl (markProcessed 1000 800) [] ([] # example_ids 999)) ''new'') []"
proof -
  have full: "foldl (markProcessed 1000 800) [] ([] # example_ids 999) = [] # example_ids 999"
    using foldl_markProcessed_below [of "[]" "[] # example_ids 999" 1000 800]
    by (simp add: distinct_example_ids example_ids_nonempty length_example_ids)
  have fresh: "''new'' \<notin> set (example_ids 999)"
    using example_ids_hd [of "''new''" 999] by auto
  have after: "markProcessed 1000 800 ([] # example_ids 999) ''new''
      = [] # drop (length (example_ids 999) - 800) (example_ids 999) @ [''new'']"
    by (rule markProcessed_empty_id_oldest)
       (simp_all add: distinct_example_ids example_ids_nonempty length_example_ids fresh)
  show ?thesis
    unfolding full after
    by (simp add: dedupe_size_def isProcessed_def length_example_ids)
qed

section \<open>Render mode\<close>

text \<open>
  C6. The claim is that in raw render mode every reply is delivered as plain text, a
  table-shaped one reformatted. \<^verbatim>\<open>sendSmart\<close> does so when it is given the raw mode. The
  \<^verbatim>\<open>deliver\<close> callback of \<^verbatim>\<open>dispatchFeishuMessage\<close> replaces the account's mode by the card
  mode whenever \<^verbatim>\<open>shouldUseCardRendering(text)\<close> holds, before \<^verbatim>\<open>sendSmart\<close> or \<^verbatim>\<open>replyMessage\<close>
  sees it: for an account in raw mode, a reply that is a markdown table goes out as a card,
  in a direct chat and in a group.
\<close>

theorem raw_mode_sends_card:
  "deliver Raw False ''om_1'' ''|a|b|\<newline>|---|---|'' = Some (SendCard ''|a|b|\<newline>|---|---|'')
   \<and> deliver Raw True ''om_1'' ''|a|b|\<newline>|---|---|'' = Some (SendCard ''|a|b|\<newline>|---|---|'')
   \<and> sendSmart Raw ''|a|b|\<newline>|---|---|'' None = SendText '' | a | b | \<newline> | --- | --- | ''"
  by code_simp

section \<open>Normalization\<close>

lemma parse_content_fallback:
  assumes "JSON_parse rt (raw_content msg) = None \<or> message_type msg \<notin> set known_message_types"
  shows "parse_content rt msg = only_text (Some (raw_content msg))"
proof (cases "JSON_parse rt (raw_content msg)")
  case None
  then show ?thesis
    by (simp add: parse_content_def)
next
  case (Some contentObj)
  with assms have "message_type msg \<notin> set known_message_types"
    by simp
  then have "switch_message_type (message_type msg) (raw_content msg) contentObj
      = Inr (only_text (Some (raw_content msg)))"
    by (simp add: switch_message_type_def known_message_types_def)
  with Some show ?thesis
    by (simp add: parse_content_def)
qed

lemma replace_mentions_compiles:
  "list_all (\<lambda>m. \<exists>f. RegExp_g rt (mention_key m) = Inr f) ms \<Longrightarrow>
   \<exists>d. replace_mentions rt ms s = Inr d"
  by (induction ms arbitrary: s) auto

lemma parseWebhookEvent_receive:
  "parseWebhookEvent rt (receive_body ev) tok =
     (case handleMessageReceive rt ev of Inl e \<Rightarrow> Inr (Error e) | Inr r \<Rightarrow> Inr r)"
  by (simp add: parseWebhookEvent_def receive_body_def handleEventCallback_def)

lemma handleMessageReceive_fallback:
  assumes "JSON_parse rt (raw_content (event_message ev)) = None
         \<or> message_type (event_message ev) \<notin> set known_message_types"
  shows "(\<exists>m. handleMessageReceive rt ev = Inr (Message m)
              \<and> text' m = Some (raw_content (event_message ev)))
         \<or> (\<exists>e. handleMessageReceive rt ev = Inl e)"
  using parse_content_fallback [OF assms]
  by (cases "replace_mentions rt (map map_mention (the (raw_mentions (event_message ev))))
        (raw_content (event_message ev))")
     (auto simp: handleMessageReceive_def Let_def only_text_def)

lemma handleMessageReceive_fallback_compiles:
  assumes "JSON_parse rt (raw_content (event_message ev)) = None
         \<or> message_type (event_message ev) \<notin> set known_message_types"
    and "list_all (\<lambda>m. \<exists>f. RegExp_g rt (raw_key m) = Inr f)
           (case raw_mentions (event_message ev) of None \<Rightarrow> [] | Some ms \<Rightarrow> ms)"
  shows "\<exists>m. handleMessageReceive rt ev = Inr (Message m)
              \<and> text' m = Some (raw_content (event_message ev))"
proof -
  have "list_all (\<lambda>m. \<exists>f. RegExp_g rt (mention_key m) = Inr f)
          (map map_mention (case raw_mentions (event_message ev) of None \<Rightarrow> [] | Some ms \<Rightarrow> ms))"
    using assms(2) by (simp add: list_all_iff map_mention_def)
  from replace_mentions_compiles [OF this]
  obtain d where "replace_mentions rt
      (map map_mention (case raw_mentions (event_message ev) of None \<Rightarrow> [] | Some ms \<Rightarrow> ms))
      (raw_content (event_message ev)) = Inr d"
    by blast
  then show ?thesis
    using parse_content_fallback [OF assms(1)]
    by (auto simp: handleMessageReceive_def Let_def only_text_def split: option.splits)
qed

text \<open>
  \<^verbatim>\<open>parseWebhookEvent\<close> never throws: for every body it returns a result. For a
  message-receive event whose content does not parse as JSON, or whose message type is none
  of the ten known ones, the result is a message whose text is the raw content, verbatim,
  or it is an error result; it is the message whenever a \<^verbatim>\<open>RegExp\<close> can be made of every
  mention key of the event (so always when the event has no mentions).
\<close>

lemma parseWebhookEvent_fallback:
  assumes "JSON_parse rt (raw_content (event_message ev)) = None
         \<or> message_type (event_message ev) \<notin> set known_message_types"
  shows "(\<exists>r. parseWebhookEvent rt body' tok = Inr r)
       \<and> ((\<exists>m. parseWebhookEvent rt (receive_body ev) tok = Inr (Message m)
                \<and> text' m = Some (raw_content (event_message ev)))
            \<or> (\<exists>e. parseWebhookEvent rt (receive_body ev) tok = Inr (Error e)))
       \<and> (list_all (\<lambda>m. \<exists>f. RegExp_g rt (raw_key m) = Inr f)
             (case raw_mentions (event_message ev) of None \<Rightarrow> [] | Some ms \<Rightarrow> ms)
            \<longrightarrow> (\<exists>m. parseWebhookEvent rt (receive_body ev) tok = Inr (Message m)
                      \<and> text' m = Some (raw_content (event_message ev))))"
proof -
  have total: "\<exists>r. parseWebhookEvent rt body' tok = Inr r"
    by (simp add: parseWebhookEvent_def split: sum.splits)
  have either: "(\<exists>m. parseWebhookEvent rt (receive_body ev) tok = Inr (Message m)
                \<and> text' m = Some (raw_content (event_message ev)))
            \<or> (\<exists>e. parseWebhookEvent rt (receive_body ev) tok = Inr (Error e))"
    using handleMessageReceive_fallback [OF assms]
    by (auto simp: parseWebhookEvent_receive)
  have compiled: "\<exists>m. parseWebhookEvent rt (receive_body ev) tok = Inr (Message m)
        \<and> text' m = Some (raw_content (event_message ev))"
    if "list_all (\<lambda>m. \<exists>f. RegExp_g rt (raw_key m) = Inr f)
          (case raw_mentions (event_message ev) of None \<Rightarrow> [] | Some ms \<Rightarrow> ms)"
    using handleMessageReceive_fallback_compiles [OF assms that]
    by (auto simp: parseWebhookEvent_receive)
  from total either compiled show ?thesis
    by blast
qed

lemma parseWebhookEvent_fallback_example:
  "parseWebhookEvent example_runtime Not_an_object None = Inr Unknown
   \<and> (\<exists>m. parseWebhookEvent example_runtime (receive_body example_event) None = Inr (Message m)
          \<and> text' m = Some ''hello'')"
proof -
  have not_json: "JSON_parse example_runtime (raw_content (event_message example_event)) = None
      \<or> message_type (event_message example_event) \<notin> set known_message_types"
    by (simp add: example_runtime_def example_event_def)
  have no_mentions: "list_all (\<lambda>m. \<exists>f. RegExp_g example_runtime (raw_key m) = Inr f)
      (case raw_mentions (event_message example_event) of None \<Rightarrow> [] | Some ms \<Rightarrow> ms)"
    by (simp add: example_event_def)
  have content': "raw_content (event_message example_event) = ''hello''"
    by (simp add: example_event_def)
  have unknown: "parseWebhookEvent example_runtime Not_an_object None = Inr Unknown"
    by (simp add: parseWebhookEvent_def)
  show ?thesis
    using parseWebhookEvent_fallback [OF not_json, of Not_an_object None] no_mentions content'
      unknown
    by simp
qed

text \<open>
  C7. The fallback to the raw content is not reached by every event whose content fails to
  parse. The loop that builds the display text means to replace each mention placeholder
  literally, but makes a \<^verbatim>\<open>RegExp\<close> of the key as it is, outside the inner \<^verbatim>\<open>try\<close>. For the
  event whose content \<^verbatim>\<open>hello\<close> is not JSON and that carries one mention with the key \<^verbatim>\<open>(\<close>,
  \<^verbatim>\<open>new RegExp("(", "g")\<close> throws, normalization is aborted, and \<^verbatim>\<open>parseWebhookEvent\<close> returns
  an error result, with no message and no normalized text; the same event without the
  mention is normalized to a message with the text \<^verbatim>\<open>hello\<close>.
\<close>

theorem invalid_mention_key_aborts:
  "JSON_parse example_runtime
      (raw_content (event_message
         (example_event\<lparr>event_message :=
            (event_message example_event)\<lparr>raw_mentions := Some [example_bad_mention]\<rparr>\<rparr>))) = None
   \<and> parseWebhookEvent example_runtime
        (receive_body
          (example_event\<lparr>event_message :=
             (event_message example_event)\<lparr>raw_mentions := Some [example_bad_mention]\<rparr>\<rparr>))
        None
       = Inr (Error ''Invalid regular expression: /(/g: Unterminated group'')
   \<and> (\<exists>m. parseWebhookEvent example_runtime (receive_body example_event) None
              = Inr (Message m)
          \<and> text' m = Some ''hello'' \<and> displayText m = Some ''hello'')"
  by (simp add: example_runtime_def example_event_def example_bad_mention_def
      parseWebhookEvent_receive handleMessageReceive_def parse_content_def only_text_def
      truthy_def map_mention_def first_id_def)

section \<open>The access gate\<close>

text \<open>
  What the gate does with a direct message: \<^verbatim>\<open>disabled\<close> denies, \<^verbatim>\<open>open\<close> allows,
  \<^verbatim>\<open>allowlist\<close> allows if and only if \<^verbatim>\<open>allowFrom\<close> is empty or contains the sender (the
  sender's open id when it has one, its sender id otherwise), and \<^verbatim>\<open>pairing\<close>, which is
  also the policy when none is configured, allows every sender.
\<close>

lemma dm_policy_gate:
  assumes "chatType msg = Direct"
  shows "gate_allows (buildFeishuMessageContext_gate account msg botOpenId botName) =
           (case (case dmPolicy (config account) of None \<Rightarrow> Dm_pairing | Some p \<Rightarrow> p) of
              Dm_disabled \<Rightarrow> False
            | Dm_open \<Rightarrow> True
            | Dm_pairing \<Rightarrow> True
            | Dm_allowlist \<Rightarrow>
                (case allowFrom (config account) of None \<Rightarrow> [] | Some l \<Rightarrow> l) = []
                \<or> gate_sender msg
                    \<in> set (case allowFrom (config account) of None \<Rightarrow> [] | Some l \<Rightarrow> l))"
  using assms
  by (auto simp: buildFeishuMessageContext_gate_def gate_allows_def Let_def
      split: option.splits FeishuDmPolicy.splits)

text \<open>
  C2. The claim is that under \<^verbatim>\<open>pairing\<close>, as under \<^verbatim>\<open>allowlist\<close>, a direct message is
  allowed if and only if \<^verbatim>\<open>allowFrom\<close> is empty or contains the sender. The gate computes
  the same \<^verbatim>\<open>allowed\<close> for both policies but returns \<^verbatim>\<open>null\<close> only when the policy is
  \<^verbatim>\<open>allowlist\<close>; for \<^verbatim>\<open>pairing\<close> the code has the note that it would need additional handling.
  With \<^verbatim>\<open>allowFrom\<close> \<^verbatim>\<open>["ou_admin"]\<close>, the direct message of \<^verbatim>\<open>ou_alice\<close> passes the gate
  under \<^verbatim>\<open>pairing\<close> and under the default policy, and is blocked under \<^verbatim>\<open>allowlist\<close>.
\<close>

theorem pairing_admits_unlisted_sender:
  "chatType (example_inbound\<lparr>chatType := Direct\<rparr>) = Direct
   \<and> gate_sender (example_inbound\<lparr>chatType := Direct\<rparr>) = ''ou_alice''
   \<and> buildFeishuMessageContext_gate
        (example_account\<lparr>config := \<lparr>dmPolicy = Some Dm_pairing, allowFrom = Some [''ou_admin''],
           groupPolicy = None\<rparr>\<rparr>)
        (example_inbound\<lparr>chatType := Direct\<rparr>) None None
       = Passed False
   \<and> buildFeishuMessageContext_gate
        (example_account\<lparr>config := \<lparr>dmPolicy = None, allowFrom = Some [''ou_admin''],
           groupPolicy = None\<rparr>\<rparr>)
        (example_inbound\<lparr>chatType := Direct\<rparr>) None None
       = Passed False
   \<and> buildFeishuMessageContext_gate
        (example_account\<lparr>config := \<lparr>dmPolicy = Some Dm_allowlist, allowFrom = Some [''ou_admin''],
           groupPolicy = None\<rparr>\<rparr>)
        (example_inbound\<lparr>chatType := Direct\<rparr>) None None
       = Blocked ''blocked unauthorized DM sender ou_alice''"
  by (simp add: example_inbound_def example_account_def gate_sender_def
      buildFeishuMessageContext_gate_def)

text \<open>
  C4, amended. For a group message under a policy with \<^verbatim>\<open>requireMention\<close> true and a
  \<^verbatim>\<open>groupPolicy\<close> other than \<^verbatim>\<open>disabled\<close>, when the bot is not mentioned: the message is
  denied if the bot's open id or its name is known, and it is allowed, with a warning, if and
  only if neither is (an empty string counts as unknown).
\<close>

theorem group_mention_gate:
  assumes "chatType msg = Group" and "requireMention account"
    and "\<not> isBotMentioned msg botOpenId botName"
    and "groupPolicy (config account) \<noteq> Some Group_disabled"
  shows "buildFeishuMessageContext_gate account msg botOpenId botName =
           (if truthy botOpenId \<or> truthy botName
            then Blocked ''skipping group message (no mention)'' else Passed True)
       \<and> gate_allows (buildFeishuMessageContext_gate account msg botOpenId botName) =
           (\<not> truthy botOpenId \<and> \<not> truthy botName)"
  using assms
  by (auto simp: buildFeishuMessageContext_gate_def gate_allows_def Let_def split: option.splits)

theorem group_mention_gate_witness:
  "buildFeishuMessageContext_gate example_account example_inbound (Some ''ou_bot'') None
     = Blocked ''skipping group message (no mention)''
   \<and> gate_allows (buildFeishuMessageContext_gate example_account example_inbound None (Some []))"
proof -
  have group: "chatType example_inbound = Group"
    by (simp add: example_inbound_def)
  have required: "requireMention example_account"
    by (simp add: example_account_def)
  have silent: "\<not> isBotMentioned example_inbound b n" for b n
    by (simp add: isBotMentioned_def example_inbound_def)
  have enabled: "groupPolicy (config example_account) \<noteq> Some Group_disabled"
    by (simp add: example_account_def)
  show ?thesis
    using group_mention_gate [OF group required silent enabled, of "Some ''ou_bot''" None]
      group_mention_gate [OF group required silent enabled, of None "Some []"]
    by (simp add: truthy_def gate_allows_def)
qed

text \<open>
  The claim as first stated covers every policy with \<^verbatim>\<open>requireMention\<close> true. Under
  \<^verbatim>\<open>groupPolicy\<close> \<^verbatim>\<open>disabled\<close> a group message without a mention is denied although neither
  the bot's open id nor its name is known.
\<close>

theorem group_disabled_counterexample:
  "chatType example_inbound = Group
   \<and> requireMention (example_account\<lparr>config := \<lparr>dmPolicy = None, allowFrom = None,
        groupPolicy = Some Group_disabled\<rparr>\<rparr>)
   \<and> \<not> isBotMentioned example_inbound None None
   \<and> \<not> truthy None
   \<and> buildFeishuMessageContext_gate
        (example_account\<lparr>config := \<lparr>dmPolicy = None, allowFrom = None,
           groupPolicy = Some Group_disabled\<rparr>\<rparr>) example_inbound None None
       = Blocked ''blocked group message (groupPolicy=disabled)''"
  by (simp add: example_inbound_def example_account_def isBotMentioned_def truthy_def
      buildFeishuMessageContext_gate_def)

text \<open>
  C5. The claim is that a mention with the placeholder \<^verbatim>\<open>@_all\<close> makes the gate's mention
  check true. The exported \<^verbatim>\<open>isBotMentioned\<close> of webhook.ts has that case; the
  \<^verbatim>\<open>isBotMentioned\<close> of context.ts, which is the one \<^verbatim>\<open>buildFeishuMessageContext\<close> calls, has
  not. For a group message that mentions everyone, with the bot's id and name known and
  not among the mentions, the gate's check is false and the message is skipped.
\<close>

theorem at_all_not_counted:
  "isBotMentioned
      (example_inbound\<lparr>text' := Some ''@_all standup in five'',
         displayText := Some ''@Everyone standup in five'',
         mentions := Some [\<lparr>mention_key = ''@_all'', mention_id = [],
                             mention_name = ''Everyone''\<rparr>]\<rparr>)
      (Some ''ou_bot'') (Some ''Helper'') = False
   \<and> isBotMentioned_webhook
      (example_inbound\<lparr>text' := Some ''@_all standup in five'',
         displayText := Some ''@Everyone standup in five'',
         mentions := Some [\<lparr>mention_key = ''@_all'', mention_id = [],
                             mention_name = ''Everyone''\<rparr>]\<rparr>)
      (Some ''ou_bot'') (Some ''Helper'') = True
   \<and> buildFeishuMessageContext_gate example_account
      (example_inbound\<lparr>text' := Some ''@_all standup in five'',
         displayText := Some ''@Everyone standup in five'',
         mentions := Some [\<lparr>mention_key = ''@_all'', mention_id = [],
                             mention_name = ''Everyone''\<rparr>]\<rparr>)
      (Some ''ou_bot'') (Some ''Helper'')
     = Blocked ''skipping group message (no mention)''"
  by code_simp

section \<open>Reply context\<close>

text \<open>
  C8. \<^verbatim>\<open>fetchReplyContext\<close> returns the event it was given, unchanged, when the event has no
  parent id (or an empty one), when the fetch of the parent throws, and when the fetch
  returns a result that is not ok or carries no message (which is what a parent that is
  not found gives).
\<close>

theorem fetchReplyContext_unchanged:
  assumes "\<not> truthy (parentId inbound)
         \<or> (\<exists>err. getMessage (the (parentId inbound)) = Inl err)
         \<or> (\<exists>r. getMessage (the (parentId inbound)) = Inr r \<and> (ok r = False \<or> message r = None))"
  shows "fst (fetchReplyContext getMessage inbound) = inbound"
  using assms
  by (auto simp: fetchReplyContext_def split: sum.splits option.splits)

theorem fetchReplyContext_unchanged_witness:
  "fst (fetchReplyContext getMessage_throws (example_inbound\<lparr>parentId := Some ''om_0''\<rparr>))
     = example_inbound\<lparr>parentId := Some ''om_0''\<rparr>
   \<and> fst (fetchReplyContext getMessage_not_found (example_inbound\<lparr>parentId := Some ''om_0''\<rparr>))
     = example_inbound\<lparr>parentId := Some ''om_0''\<rparr>
   \<and> fst (fetchReplyContext getMessage_not_found example_inbound) = example_inbound"
proof -
  have thrown: "\<exists>err. getMessage_throws p = Inl err" for p
    by (simp add: getMessage_throws_def)
  have not_ok: "\<exists>r. getMessage_not_found p = Inr r \<and> (ok r = False \<or> message r = None)" for p
    by (simp add: getMessage_not_found_def)
  have no_parent: "\<not> truthy (parentId example_inbound)"
    by (simp add: truthy_def example_inbound_def)
  show ?thesis
    using
      fetchReplyContext_unchanged
        [of "example_inbound\<lparr>parentId := Some ''om_0''\<rparr>" getMessage_throws]
      fetchReplyContext_unchanged
        [of "example_inbound\<lparr>parentId := Some ''om_0''\<rparr>" getMessage_not_found]
      fetchReplyContext_unchanged [of example_inbound getMessage_not_found]
      thrown not_ok no_parent
    by blast
qed

section \<open>Reconnection\<close>

lemma onclose_simps:
  "reconnectTimeout (onclose c) =
     (if reconnectAttempts c < 10 then Some (1000 * 2 ^ reconnectAttempts c) else None)"
  "state (onclose c) = (if reconnectAttempts c < 10 then Reconnecting else Disconnected)"
  "reconnectAttempts (onclose c) =
     (if reconnectAttempts c < 10 then reconnectAttempts c + 1 else reconnectAttempts c)"
  by (simp_all add: onclose_def cleanup_def maxReconnectAttempts_def baseReconnectDelay_def Let_def)

lemma handle_attempts:
  "reconnectAttempts (handle c Timer_fires) = reconnectAttempts c"
  "reconnectAttempts (handle c Timer_throws) = reconnectAttempts c"
  "reconnectAttempts (handle c Stop) = 10"
  "reconnectAttempts (handle c Ws_open) = 0"
  "handle c Ws_close = onclose c"
  by (simp_all add: handle_def stop_def cleanup_def onopen_def maxReconnectAttempts_def
      split: option.splits)

lemma scheduled_bound:
  "Ws_open \<notin> set es \<Longrightarrow>
   length (scheduled c es) + reconnectAttempts c \<le> max 10 (reconnectAttempts c)"
proof (induction es arbitrary: c)
  case Nil
  then show ?case by simp
next
  case (Cons e es)
  then have IH: "length (scheduled (handle c e) es) + reconnectAttempts (handle c e)
      \<le> max 10 (reconnectAttempts (handle c e))"
    by simp
  show ?case
  proof (cases e)
    case Ws_open
    with Cons.prems show ?thesis by simp
  next
    case Ws_close
    with IH show ?thesis
      by (simp add: handle_attempts onclose_simps split: if_splits)
  next
    case Timer_fires
    with IH show ?thesis
      by (simp add: handle_attempts)
  next
    case Timer_throws
    with IH show ?thesis
      by (simp add: handle_attempts)
  next
    case Stop
    with IH show ?thesis
      by (simp add: handle_attempts)
  qed
qed

lemma scheduled_delays:
  "set es \<subseteq> {Ws_close, Timer_fires, Timer_throws} \<Longrightarrow>
   scheduled c es =
     map (\<lambda>n. 1000 * 2 ^ n)
       [reconnectAttempts c ..< min (reconnectAttempts c + count_list es Ws_close) 10]
   \<and> reconnectAttempts (run c es) =
       (if reconnectAttempts c < 10 then min (reconnectAttempts c + count_list es Ws_close) 10
        else reconnectAttempts c)"
proof (induction es arbitrary: c)
  case Nil
  then show ?case by (simp add: run_def)
next
  case (Cons e es)
  then have sub: "set es \<subseteq> {Ws_close, Timer_fires, Timer_throws}"
    and e: "e = Ws_close \<or> e = Timer_fires \<or> e = Timer_throws"
    by auto
  note IH = Cons.IH [OF sub, of "handle c e"]
  from e consider (close) "e = Ws_close" | (timer) "e = Timer_fires \<or> e = Timer_throws"
    by blast
  then show ?case
  proof cases
    case close
    show ?thesis
    proof (cases "reconnectAttempts c < 10")
      case True
      with IH close show ?thesis
        by (simp add: handle_attempts onclose_simps run_def upt_conv_Cons min_def)
    next
      case False
      with IH close show ?thesis
        by (simp add: handle_attempts onclose_simps run_def)
    qed
  next
    case timer
    with IH show ?thesis
      by (auto simp: handle_attempts run_def)
  qed
qed

text \<open>
  What the counter counts is the closes of a socket. When the socket of the native client
  closes after \<^verbatim>\<open>n\<close> reconnections have been scheduled since it was last connected, the next
  one is scheduled with a delay of \<^verbatim>\<open>1000 * 2 ^ n\<close> milliseconds if \<^verbatim>\<open>n\<close> is below 10, and
  otherwise none is scheduled and the client stays disconnected. Reaching the connected
  state sets the counter to zero. So after the client was connected, as long as it is not
  connected again, the delays of the reconnections it schedules are 1000, 2000, 4000, ...
  in this order, one for each close, and there are at most 10 of them, also when \<^verbatim>\<open>stop()\<close>
  is called on the way.
\<close>

lemma reconnect_backoff:
  assumes "set es \<subseteq> {Ws_close, Timer_fires, Timer_throws}" and "Ws_open \<notin> set es'"
  shows "reconnectTimeout (onclose c) =
           (if reconnectAttempts c < 10 then Some (1000 * 2 ^ reconnectAttempts c) else None)
       \<and> state (onclose c) = (if reconnectAttempts c < 10 then Reconnecting else Disconnected)
       \<and> reconnectAttempts (onopen c) = 0
       \<and> state (onopen c) = Connected
       \<and> scheduled (onopen c) es =
           map (\<lambda>n. 1000 * 2 ^ n) [0 ..< min (count_list es Ws_close) 10]
       \<and> length (scheduled (onopen c) es') \<le> 10"
proof -
  have zero: "reconnectAttempts (onopen c) = 0" and up: "state (onopen c) = Connected"
    by (simp_all add: onopen_def)
  have delays: "scheduled (onopen c) es =
      map (\<lambda>n. 1000 * 2 ^ n) [0 ..< min (count_list es Ws_close) 10]"
    using scheduled_delays [OF assms(1), of "onopen c"] zero by simp
  have "length (scheduled (onopen c) es') + reconnectAttempts (onopen c)
      \<le> max 10 (reconnectAttempts (onopen c))"
    using assms(2) by (rule scheduled_bound)
  then have bound: "length (scheduled (onopen c) es') \<le> 10"
    using zero by simp
  from zero up delays bound show ?thesis
    by (simp add: onclose_simps)
qed

lemma reconnect_backoff_example:
  "reconnectTimeout (onclose (onopen initial_client)) = Some 1000
   \<and> state (onclose (onopen initial_client)) = Reconnecting
   \<and> reconnectAttempts (onopen (onopen initial_client)) = 0
   \<and> state (onopen (onopen initial_client)) = Connected
   \<and> scheduled (onopen (onopen initial_client))
        [Ws_close, Timer_fires, Ws_close, Timer_fires, Ws_close] = [1000, 2000, 4000]
   \<and> length (scheduled (onopen (onopen initial_client)) [Ws_close, Stop, Ws_close]) \<le> 10"
proof -
  have closes: "set [Ws_close, Timer_fires, Ws_close, Timer_fires, Ws_close]
      \<subseteq> {Ws_close, Timer_fires, Timer_throws}"
    by simp
  have no_open: "Ws_open \<notin> set [Ws_close, Stop, Ws_close]"
    by simp
  have attempts: "reconnectAttempts (onopen initial_client) = 0"
    by (simp add: onopen_def)
  have delays: "map (\<lambda>n. 1000 * 2 ^ n)
      [0 ..< min (count_list [Ws_close, Timer_fires, Ws_close, Timer_fires, Ws_close] Ws_close) 10]
      = [1000, 2000, 4000 :: nat]"
    by (simp add: upt_conv_Cons)
  show ?thesis
    using reconnect_backoff [OF closes no_open, of "onopen initial_client"] attempts delays
    by (simp del: scheduled.simps)
qed


text \<open>
  C9. A reconnection attempt that fails before it has a socket is not followed by another
  one. The client was connected and its socket closes: a reconnection is scheduled after
  1000 milliseconds. The timer fires and \<^verbatim>\<open>connect()\<close> throws (the request for the token or
  for the endpoint fails): the error is passed to \<^verbatim>\<open>onError\<close> and nothing else is done. After
  this one failed attempt no reconnection is scheduled, after 2000 milliseconds or ever:
  the state stays \<^verbatim>\<open>connecting\<close>, there is no socket whose close could schedule one, no timer
  is pending, and the counter stays at 1. A failed attempt that had a socket (the timer
  fires, the socket is made and closes) is followed by the next one after 2000
  milliseconds.
\<close>

theorem reconnect_stalls_when_connect_throws:
  "scheduled (onopen initial_client) [Ws_close, Timer_throws] = [1000]
   \<and> run (onopen initial_client) [Ws_close, Timer_throws]
       = \<lparr>state = Connecting, ws = False, heartbeatInterval = False,
          reconnectTimeout = None, reconnectAttempts = 1\<rparr>
   \<and> handle (run (onopen initial_client) [Ws_close, Timer_throws]) Timer_fires
       = run (onopen initial_client) [Ws_close, Timer_throws]
   \<and> handle (run (onopen initial_client) [Ws_close, Timer_throws]) Timer_throws
       = run (onopen initial_client) [Ws_close, Timer_throws]
   \<and> scheduled (onopen initial_client) [Ws_close, Timer_fires, Ws_close] = [1000, 2000]"
  by (simp add: run_def handle_def onopen_def onclose_def cleanup_def initial_client_def
      maxReconnectAttempts_def baseReconnectDelay_def Let_def)

end
